theory Spec2Isabelle
  imports Complex_Main
begin

section \<open>Order lifecycle of the NutriWell backend\<close>

text \<open>
  A shallow embedding of the order controller (\<^verbatim>\<open>order.controller\<close>: \<^verbatim>\<open>generateOrderNumber\<close>,
  \<^verbatim>\<open>calculateShippingFee\<close>, \<^verbatim>\<open>createOrder\<close>, \<^verbatim>\<open>cancelOrder\<close>, \<^verbatim>\<open>updateOrderStatus\<close>), of the
  part of the email service it calls, and of the two tables it reads and writes.
  The database is an explicit state that every handler takes and returns; what the
  handlers read from their environment (the clock, the generated primary key, the
  outcome of the mail transport) is an explicit argument.
\<close>

subsection \<open>Order numbers\<close>

text \<open>
  \<^verbatim>\<open>Date.now().toString().slice(-7)\<close>. The clock value is a count of milliseconds since
  the epoch, a natural number. \<^verbatim>\<open>toString\<close> is the decimal representation without
  leading zeros; \<^verbatim>\<open>slice(-7)\<close> keeps the last seven characters, or the whole string when
  it is shorter (the truncating subtraction on \<open>nat\<close> is exactly that clamp).
\<close>

definition digit_char :: "nat \<Rightarrow> char" where
  "digit_char d =
     (if d = 0 then CHR ''0'' else if d = 1 then CHR ''1'' else if d = 2 then CHR ''2''
      else if d = 3 then CHR ''3'' else if d = 4 then CHR ''4'' else if d = 5 then CHR ''5''
      else if d = 6 then CHR ''6'' else if d = 7 then CHR ''7'' else if d = 8 then CHR ''8''
      else CHR ''9'')"

fun toString :: "nat \<Rightarrow> string" where
  "toString n = (if n < 10 then [digit_char n] else toString (n div 10) @ [digit_char (n mod 10)])"

declare toString.simps [simp del]

definition slice_last :: "nat \<Rightarrow> string \<Rightarrow> string" where
  "slice_last k s = drop (length s - k) s"

definition generateOrderNumber :: "nat \<Rightarrow> string" where
  "generateOrderNumber now = slice_last 7 (toString now)"

text \<open>The fixed-width rendering of the last \<open>k\<close> decimal digits, used to describe the result.\<close>

fun pad_digits :: "nat \<Rightarrow> nat \<Rightarrow> string" where
  "pad_digits 0 n = []"
| "pad_digits (Suc k) n = pad_digits k (n div 10) @ [digit_char (n mod 10)]"

definition is_digit :: "char \<Rightarrow> bool" where
  "is_digit c = (c \<in> set ''0123456789'')"

text \<open>
  Reading a string of decimal digits back as a number, by the character codes (the code
  of \<^verbatim>\<open>0\<close> is 48): the yardstick for \<open>toString\<close>, which it does not share a table with.
\<close>

definition digit_value :: "char \<Rightarrow> nat" where
  "digit_value c = of_char c - 48"

definition decimal_value :: "string \<Rightarrow> nat" where
  "decimal_value s = foldl (\<lambda>acc c. 10 * acc + digit_value c) 0 s"


subsection \<open>Tables\<close>

text \<open>
  The rows the order controller touches. Monetary columns are \<^verbatim>\<open>DECIMAL(10,2)\<close> and the
  controller computes on them with JavaScript numbers; the model takes both as exact
  numbers (\<open>real\<close>) and does not model binary rounding. Stock and ordered quantities
  are \<^verbatim>\<open>INTEGER\<close> columns, \<open>int\<close>; the ranges of the columns are checked where rows are
  written. Columns that are copied from the request into the
  order and never read again by the controller (last name, phone, address lines, payment
  method, delivery note) are left out. The items of an order are kept inside the order
  row, which is what \<^verbatim>\<open>include: { items: true }\<close> reads.
\<close>

datatype OrderStatus = PENDING | PAID | PROCESSING | SHIPPED | DELIVERED | CANCELLED | REFUNDED

datatype DeliveryMethod = STORE_PICKUP | DELIVERY

record product =
  p_id :: string
  p_name :: string
  p_brand :: "string option"
  p_price :: real
  p_quantity :: int
  p_isActive :: bool

record orderItem =
  oi_productId :: string
  oi_productName :: string
  oi_productBrand :: "string option"
  oi_quantity :: int
  oi_price :: real
  oi_subtotal :: real

record order =
  o_id :: string
  o_orderNumber :: string
  o_userId :: string
  o_status :: OrderStatus
  o_subtotal :: real
  o_shippingFee :: real
  o_tax :: real
  o_total :: real
  o_contactFirstName :: string
  o_contactEmail :: string
  o_deliveryMethod :: DeliveryMethod
  o_shippingRegion :: "string option"
  o_items :: "orderItem list"

record database =
  products :: "product list"
  orders :: "order list"

subsection \<open>Requests and responses\<close>

text \<open>
  The request body with the fields and types of the route's schema: a missing \<^verbatim>\<open>items\<close>
  is the empty list, a missing \<^verbatim>\<open>shippingInfo\<close> is \<open>None\<close>. The route has no validator, so
  a quantity is any integer.
\<close>

record itemReq =
  i_productId :: string
  i_quantity :: int

record contactInfo =
  c_firstName :: string
  c_email :: string

record shippingInfo =
  s_region :: "string option"
  s_address :: "string option"

record orderReq =
  r_items :: "itemReq list"
  r_contactInfo :: contactInfo
  r_deliveryMethod :: DeliveryMethod
  r_shippingInfo :: "shippingInfo option"

record stockError =
  se_productId :: string
  se_productName :: string
  se_requested :: int
  se_available :: int

text \<open>
  Every \<^verbatim>\<open>res.status(4xx/5xx).json\<close> of the three handlers is one constructor; the payload
  is what the JSON body carries besides the fixed message.
\<close>

datatype failure =
    EmptyOrder
  | ShippingRequired
  | ProductsNotFound "string list"
  | InsufficientStock "stockError list"
  | OrderNotFound
  | NotAuthorized
  | CannotCancel OrderStatus
  | InvalidTransition OrderStatus string
  | ServerError string

datatype response = Created order | Updated order | Failed failure

fun status_name :: "OrderStatus \<Rightarrow> string" where
  "status_name PENDING = ''PENDING''"
| "status_name PAID = ''PAID''"
| "status_name PROCESSING = ''PROCESSING''"
| "status_name SHIPPED = ''SHIPPED''"
| "status_name DELIVERED = ''DELIVERED''"
| "status_name CANCELLED = ''CANCELLED''"
| "status_name REFUNDED = ''REFUNDED''"

fun http_status :: "response \<Rightarrow> nat" where
  "http_status (Created _) = 201"
| "http_status (Updated _) = 200"
| "http_status (Failed OrderNotFound) = 404"
| "http_status (Failed NotAuthorized) = 403"
| "http_status (Failed (ServerError _)) = 500"
| "http_status (Failed _) = 400"

fun failure_message :: "failure \<Rightarrow> string" where
  "failure_message EmptyOrder = ''Order must contain at least one item''"
| "failure_message ShippingRequired = ''Shipping address is required for delivery orders''"
| "failure_message (ProductsNotFound _) = ''Some products not found or inactive''"
| "failure_message (InsufficientStock _) = ''Some products have insufficient stock''"
| "failure_message OrderNotFound = ''Order not found''"
| "failure_message NotAuthorized = ''Not authorized to cancel this order''"
| "failure_message (CannotCancel s) = ''Cannot cancel order with status: '' @ status_name s"
| "failure_message (InvalidTransition s t) =
     ''Invalid status transition from '' @ status_name s @ '' to '' @ t"
| "failure_message (ServerError msg) = msg"

subsection \<open>The email service\<close>

text \<open>
  \<^verbatim>\<open>sendEmail\<close> wraps the transport in \<^verbatim>\<open>try/catch\<close>: a transport error is logged and turned
  into \<^verbatim>\<open>{ success: false }\<close>. The two order emails build their HTML first and then await
  \<^verbatim>\<open>sendEmail\<close>; they are \<^verbatim>\<open>async\<close>, so an exception while building the HTML is a rejected
  promise. What the transport and the template do is an input of the model: \<open>mailer\<close>.
  Console output is the list of lines written.
\<close>

record mailer =
  render_throws :: bool
  transport_fails :: bool

datatype send_result = SendOk | SendFailed

datatype 'a promise = Resolved 'a | Rejected

definition sendEmail :: "mailer \<Rightarrow> send_result \<times> string list" where
  "sendEmail m =
     (if transport_fails m then (SendFailed, [''Email sending error:''])
      else (SendOk, [''Email sent:'']))"

definition sendOrderConfirmationEmail :: "mailer \<Rightarrow> send_result promise \<times> string list" where
  "sendOrderConfirmationEmail m =
     (if render_throws m then (Rejected, [])
      else (case sendEmail m of (r, out) \<Rightarrow> (Resolved r, out)))"

definition sendOrderStatusEmail :: "mailer \<Rightarrow> send_result promise \<times> string list" where
  "sendOrderStatusEmail m =
     (if render_throws m then (Rejected, [])
      else (case sendEmail m of (r, out) \<Rightarrow> (Resolved r, out)))"

text \<open>\<^verbatim>\<open>promise.catch(err => console.error(msg, err))\<close>: the lines written in the end.\<close>

definition catch_log :: "string \<Rightarrow> 'a promise \<times> string list \<Rightarrow> string list" where
  "catch_log msg p = (case p of (Rejected, out) \<Rightarrow> out @ [msg] | (Resolved _, out) \<Rightarrow> out)"

subsection \<open>Shipping fee\<close>

text \<open>
  \<^verbatim>\<open>shippingRates[region] || shippingRates.default\<close> on an object literal. A region that
  is absent (\<^verbatim>\<open>undefined\<close>) or not a key gives the default. A region that names a member
  inherited from \<^verbatim>\<open>Object.prototype\<close> reads that member, which is truthy and not a number:
  the result is \<open>None\<close>, and the order row cannot be written with it.
\<close>

definition shippingRates :: "(string \<times> real) list" where
  "shippingRates =
     [(''Sindh'', 50), (''Punjab'', 100), (''Balochistan'', 150),
      (''Khyber Pakhtunkhwa'', 120), (''default'', 100)]"

definition object_prototype_members :: "string list" where
  "object_prototype_members =
     [''constructor'', ''__defineGetter__'', ''__defineSetter__'', ''hasOwnProperty'',
      ''__lookupGetter__'', ''__lookupSetter__'', ''isPrototypeOf'', ''propertyIsEnumerable'',
      ''toString'', ''valueOf'', ''__proto__'', ''toLocaleString'']"

definition calculateShippingFee :: "DeliveryMethod \<Rightarrow> string option \<Rightarrow> real option" where
  "calculateShippingFee deliveryMethod region =
     (if deliveryMethod = STORE_PICKUP then Some 0
      else (case region of
              None \<Rightarrow> Some 100
            | Some r \<Rightarrow>
                (case map_of shippingRates r of
                   Some fee \<Rightarrow> Some fee
                 | None \<Rightarrow> if r \<in> set object_prototype_members then None else Some 100)))"

subsection \<open>Database operations\<close>

text \<open>
  The ranges of the column types. \<^verbatim>\<open>INTEGER\<close> is a signed 32-bit integer. A
  \<^verbatim>\<open>DECIMAL(10,2)\<close> value is rounded to two places (half away from zero) and must then be
  below \<open>10\<^sup>8\<close> in absolute value. A write outside the range throws.
\<close>

definition in_int4 :: "int \<Rightarrow> bool" where
  "in_int4 x = (- 2147483648 \<le> x \<and> x \<le> 2147483647)"

definition fits_decimal_10_2 :: "real \<Rightarrow> bool" where
  "fits_decimal_10_2 x = (\<bar>x\<bar> * 1000 < 99999999995)"

text \<open>
  \<^verbatim>\<open>prisma.product.findMany({ where: { id: { in: productIds }, isActive: true } })\<close>:
  the rows of the table that match, each once.
\<close>

definition findMany_active :: "product list \<Rightarrow> string list \<Rightarrow> product list" where
  "findMany_active tbl productIds = filter (\<lambda>p. p_id p \<in> set productIds \<and> p_isActive p) tbl"

text \<open>\<^verbatim>\<open>prisma.order.findUnique({ where: { id } })\<close>.\<close>

definition findUnique_order :: "order list \<Rightarrow> string \<Rightarrow> order option" where
  "findUnique_order tbl oid = find (\<lambda>row. o_id row = oid) tbl"

text \<open>
  \<^verbatim>\<open>tx.product.update({ where: { id }, data: { quantity: { increment: d } } })\<close>
  (\<^verbatim>\<open>decrement: d\<close> is the increment by \<open>- d\<close>). The update throws when no row has the
  id, and when the new quantity is outside the \<^verbatim>\<open>INTEGER\<close> range: \<open>None\<close>.
\<close>

definition product_update :: "string \<Rightarrow> int \<Rightarrow> product list \<Rightarrow> product list option" where
  "product_update pid d tbl =
     (if pid \<in> set (map p_id tbl)
         \<and> list_all (\<lambda>p. in_int4 (p_quantity p + d)) (filter (\<lambda>p. p_id p = pid) tbl)
      then Some (map (\<lambda>p. if p_id p = pid then p\<lparr>p_quantity := p_quantity p + d\<rparr> else p) tbl)
      else None)"

text \<open>A \<^verbatim>\<open>for\<close> loop of such updates; the first that throws ends the loop.\<close>

fun adjust_all :: "(string \<times> int) list \<Rightarrow> product list \<Rightarrow> product list option" where
  "adjust_all [] tbl = Some tbl"
| "adjust_all ((pid, d) # rest) tbl =
     (case product_update pid d tbl of
        None \<Rightarrow> None
      | Some tbl' \<Rightarrow> adjust_all rest tbl')"

definition deduct_inventory :: "itemReq list \<Rightarrow> product list \<Rightarrow> product list option" where
  "deduct_inventory items tbl = adjust_all (map (\<lambda>item. (i_productId item, - i_quantity item)) items) tbl"

definition restore_inventory :: "orderItem list \<Rightarrow> product list \<Rightarrow> product list option" where
  "restore_inventory items tbl = adjust_all (map (\<lambda>item. (oi_productId item, oi_quantity item)) items) tbl"

text \<open>
  \<^verbatim>\<open>tx.order.create\<close> with the nested item rows: the database checks the primary key, the
  unique index \<^verbatim>\<open>orders_orderNumber_key\<close> and the range of every numeric column of the order
  and of its items; a violation throws.
\<close>

definition order_columns_fit :: "order \<Rightarrow> bool" where
  "order_columns_fit newOrder =
     (fits_decimal_10_2 (o_subtotal newOrder) \<and> fits_decimal_10_2 (o_shippingFee newOrder)
      \<and> fits_decimal_10_2 (o_tax newOrder) \<and> fits_decimal_10_2 (o_total newOrder)
      \<and> list_all (\<lambda>item. in_int4 (oi_quantity item) \<and> fits_decimal_10_2 (oi_price item)
                            \<and> fits_decimal_10_2 (oi_subtotal item)) (o_items newOrder))"

definition order_create :: "order list \<Rightarrow> order \<Rightarrow> order list option" where
  "order_create tbl newOrder =
     (if o_id newOrder \<in> set (map o_id tbl) \<or> o_orderNumber newOrder \<in> set (map o_orderNumber tbl)
         \<or> \<not> order_columns_fit newOrder
      then None
      else Some (tbl @ [newOrder]))"

text \<open>
  \<^verbatim>\<open>order.update({ where: { id }, data: { status } })\<close>: returns the updated row, throws
  when there is none.
\<close>

definition order_update_status :: "string \<Rightarrow> OrderStatus \<Rightarrow> order list \<Rightarrow> (order \<times> order list) option" where
  "order_update_status oid s tbl =
     (case find (\<lambda>row. o_id row = oid) tbl of
        None \<Rightarrow> None
      | Some row \<Rightarrow>
          Some (row\<lparr>o_status := s\<rparr>,
                map (\<lambda>r. if o_id r = oid then r\<lparr>o_status := s\<rparr> else r) tbl))"

text \<open>
  What a handler's outer \<^verbatim>\<open>catch\<close> does: write a line to the console and answer 500 with
  the handler's message; the transaction has rolled back.
\<close>

definition server_error ::
  "database \<Rightarrow> string \<Rightarrow> string \<Rightarrow> response \<times> database \<times> string list"
where
  "server_error db line msg = (Failed (ServerError msg), db, [line])"

subsection \<open>createOrder\<close>

definition make_stockError :: "product \<Rightarrow> itemReq \<Rightarrow> stockError" where
  "make_stockError product item =
     \<lparr>se_productId = p_id product, se_productName = p_name product,
      se_requested = i_quantity item, se_available = p_quantity product\<rparr>"

definition make_orderItem :: "product \<Rightarrow> itemReq \<Rightarrow> orderItem" where
  "make_orderItem product item =
     \<lparr>oi_productId = p_id product, oi_productName = p_name product,
      oi_productBrand = p_brand product, oi_quantity = i_quantity item,
      oi_price = p_price product,
      oi_subtotal = p_price product * real_of_int (i_quantity item)\<rparr>"

text \<open>
  The callback of \<^verbatim>\<open>items.map\<close>, with the two variables it updates (\<^verbatim>\<open>stockErrors\<close>,
  \<^verbatim>\<open>subtotal\<close>) threaded through. \<^verbatim>\<open>products.find\<close> returning \<^verbatim>\<open>undefined\<close> makes
  \<^verbatim>\<open>product.quantity\<close> throw: \<open>None\<close>.
\<close>

fun order_items_loop ::
  "product list \<Rightarrow> itemReq list \<Rightarrow> stockError list \<Rightarrow> real \<Rightarrow> (orderItem list \<times> stockError list \<times> real) option"
where
  "order_items_loop prods [] stockErrors subtotal = Some ([], stockErrors, subtotal)"
| "order_items_loop prods (item # rest) stockErrors subtotal =
     (case find (\<lambda>p. p_id p = i_productId item) prods of
        None \<Rightarrow> None
      | Some product \<Rightarrow>
          (case order_items_loop prods rest
                  (if p_quantity product < i_quantity item
                   then stockErrors @ [make_stockError product item] else stockErrors)
                  (subtotal + p_price product * real_of_int (i_quantity item)) of
             None \<Rightarrow> None
           | Some (orderItems, stockErrors', subtotal') \<Rightarrow>
               Some (make_orderItem product item # orderItems, stockErrors', subtotal')))"

text \<open>The body of \<^verbatim>\<open>prisma.$transaction\<close> in \<^verbatim>\<open>createOrder\<close>: all of it or nothing.\<close>

definition create_transaction :: "database \<Rightarrow> order \<Rightarrow> itemReq list \<Rightarrow> database option" where
  "create_transaction db newOrder items =
     (case order_create (orders db) newOrder of
        None \<Rightarrow> None
      | Some orders' \<Rightarrow>
          (case deduct_inventory items (products db) of
             None \<Rightarrow> None
           | Some products' \<Rightarrow> Some \<lparr>products = products', orders = orders'\<rparr>))"

definition createOrder ::
  "database \<Rightarrow> nat \<Rightarrow> string \<Rightarrow> mailer \<Rightarrow> string \<Rightarrow> orderReq \<Rightarrow> response \<times> database \<times> string list"
where
  "createOrder db now newId mail userId req =
     (if r_items req = [] then (Failed EmptyOrder, db, [])
      else if r_deliveryMethod req = DELIVERY \<and> r_shippingInfo req = None
      then (Failed ShippingRequired, db, [])
      else
        let productIds = map i_productId (r_items req);
            prods = findMany_active (products db) productIds
        in if length prods \<noteq> length productIds
           then (Failed (ProductsNotFound
                   (filter (\<lambda>i. i \<notin> set (map p_id prods)) productIds)), db, [])
           else
             (case order_items_loop prods (r_items req) [] 0 of
                None \<Rightarrow> server_error db ''Create order error:'' ''Failed to create order''
              | Some (orderItems, stockErrors, subtotal) \<Rightarrow>
                  if stockErrors \<noteq> [] then (Failed (InsufficientStock stockErrors), db, [])
                  else
                    let region = (case r_shippingInfo req of None \<Rightarrow> None | Some si \<Rightarrow> s_region si)
                    in (case calculateShippingFee (r_deliveryMethod req) region of
                          None \<Rightarrow> server_error db ''Create order error:'' ''Failed to create order''
                        | Some shippingFee \<Rightarrow>
                            let tax = 0;
                                total = subtotal + shippingFee + tax;
                                newOrder =
                                  \<lparr>o_id = newId, o_orderNumber = generateOrderNumber now,
                                   o_userId = userId, o_status = PENDING,
                                   o_subtotal = subtotal, o_shippingFee = shippingFee,
                                   o_tax = tax, o_total = total,
                                   o_contactFirstName = c_firstName (r_contactInfo req),
                                   o_contactEmail = c_email (r_contactInfo req),
                                   o_deliveryMethod = r_deliveryMethod req,
                                   o_shippingRegion = region,
                                   o_items = orderItems\<rparr>
                            in (case create_transaction db newOrder (r_items req) of
                                  None \<Rightarrow> server_error db ''Create order error:'' ''Failed to create order''
                                | Some db' \<Rightarrow>
                                    (Created newOrder, db',
                                     catch_log ''Failed to send order confirmation email:''
                                       (sendOrderConfirmationEmail mail))))))"

subsection \<open>cancelOrder\<close>

definition cancel_transaction :: "database \<Rightarrow> string \<Rightarrow> order \<Rightarrow> (order \<times> database) option" where
  "cancel_transaction db oid ord =
     (case order_update_status oid CANCELLED (orders db) of
        None \<Rightarrow> None
      | Some (cancelled, orders') \<Rightarrow>
          (case restore_inventory (o_items ord) (products db) of
             None \<Rightarrow> None
           | Some products' \<Rightarrow> Some (cancelled, \<lparr>products = products', orders = orders'\<rparr>)))"

definition cancelOrder ::
  "database \<Rightarrow> mailer \<Rightarrow> string \<Rightarrow> string \<Rightarrow> response \<times> database \<times> string list"
where
  "cancelOrder db mail userId oid =
     (case findUnique_order (orders db) oid of
        None \<Rightarrow> (Failed OrderNotFound, db, [])
      | Some ord \<Rightarrow>
          if o_userId ord \<noteq> userId then (Failed NotAuthorized, db, [])
          else if o_status ord \<notin> set [PENDING, PAID]
          then (Failed (CannotCancel (o_status ord)), db, [])
          else
            (case cancel_transaction db oid ord of
               None \<Rightarrow> server_error db ''Cancel order error:'' ''Failed to cancel order''
             | Some (updatedOrder, db') \<Rightarrow>
                 (Updated updatedOrder, db',
                  catch_log ''Failed to send order cancellation email:''
                    (sendOrderStatusEmail mail))))"

subsection \<open>updateOrderStatus\<close>

text \<open>
  The requested status is whatever string the request body carries. The order's own
  status is a value of the database enum.
\<close>

fun allowedTransitions :: "OrderStatus \<Rightarrow> string list" where
  "allowedTransitions PENDING = [''PAID'', ''CANCELLED'']"
| "allowedTransitions PAID = [''PROCESSING'', ''REFUNDED'']"
| "allowedTransitions PROCESSING = [''SHIPPED'', ''CANCELLED'']"
| "allowedTransitions SHIPPED = [''DELIVERED'']"
| "allowedTransitions DELIVERED = []"
| "allowedTransitions CANCELLED = []"
| "allowedTransitions REFUNDED = []"

definition all_statuses :: "OrderStatus list" where
  "all_statuses = [PENDING, PAID, PROCESSING, SHIPPED, DELIVERED, CANCELLED, REFUNDED]"

text \<open>The database reads the string as an enum label; any other string is refused.\<close>

definition parse_status :: "string \<Rightarrow> OrderStatus option" where
  "parse_status s = find (\<lambda>st. status_name st = s) all_statuses"

definition updateOrderStatus ::
  "database \<Rightarrow> mailer \<Rightarrow> string \<Rightarrow> string \<Rightarrow> response \<times> database \<times> string list"
where
  "updateOrderStatus db mail oid status =
     (case findUnique_order (orders db) oid of
        None \<Rightarrow> (Failed OrderNotFound, db, [])
      | Some ord \<Rightarrow>
          if status \<notin> set (allowedTransitions (o_status ord))
          then (Failed (InvalidTransition (o_status ord) status), db, [])
          else
            (case parse_status status of
               None \<Rightarrow> server_error db ''Update order status error:'' ''Failed to update order status''
             | Some s \<Rightarrow>
                 (case order_update_status oid s (orders db) of
                    None \<Rightarrow> server_error db ''Update order status error:'' ''Failed to update order status''
                  | Some (updatedOrder, orders') \<Rightarrow>
                      (Updated updatedOrder, db\<lparr>orders := orders'\<rparr>,
                       catch_log ''Failed to send order status email:''
                         (sendOrderStatusEmail mail)))))"

subsection \<open>Reading the state\<close>

text \<open>The stock of a product id, and the quantity an order holds of a product id.\<close>

definition stock :: "database \<Rightarrow> string \<Rightarrow> int option" where
  "stock db pid = map_option p_quantity (find (\<lambda>p. p_id p = pid) (products db))"


definition is_active_product :: "database \<Rightarrow> string \<Rightarrow> bool" where
  "is_active_product db pid = (\<exists>p \<in> set (products db). p_id p = pid \<and> p_isActive p)"

subsection \<open>The transition table as the specification gives it\<close>

definition spec_transitions :: "(OrderStatus \<times> OrderStatus) list" where
  "spec_transitions =
     [(PENDING, PAID), (PENDING, CANCELLED),
      (PAID, PROCESSING), (PAID, REFUNDED),
      (PROCESSING, SHIPPED), (PROCESSING, CANCELLED),
      (SHIPPED, DELIVERED)]"

definition spec_allows :: "OrderStatus \<Rightarrow> string \<Rightarrow> bool" where
  "spec_allows cur requested =
     list_ex (\<lambda>(a, b). a = cur \<and> status_name b = requested) spec_transitions"

subsection \<open>A concrete catalogue and order\<close>

text \<open>
  One product with stock 5 and price 10.00; requests picked up at the store; the order
  of 3 units of the product by user \<open>u1\<close>, and the database that holds it.
\<close>

definition shop_product :: product where
  "shop_product =
     \<lparr>p_id = ''P'', p_name = ''Whey'', p_brand = None, p_price = 10, p_quantity = 5,
      p_isActive = True\<rparr>"

definition shop_db :: database where
  "shop_db = \<lparr>products = [shop_product], orders = []\<rparr>"

definition shop_item :: "string \<Rightarrow> int \<Rightarrow> itemReq" where
  "shop_item pid q = \<lparr>i_productId = pid, i_quantity = q\<rparr>"

definition shop_request :: "itemReq list \<Rightarrow> orderReq" where
  "shop_request items =
     \<lparr>r_items = items,
      r_contactInfo = \<lparr>c_firstName = ''Ada'', c_email = ''ada@example.org''\<rparr>,
      r_deliveryMethod = STORE_PICKUP, r_shippingInfo = None\<rparr>"

definition shop_order :: "OrderStatus \<Rightarrow> order" where
  "shop_order st =
     \<lparr>o_id = ''o1'', o_orderNumber = ''0000123'', o_userId = ''u1'', o_status = st,
      o_subtotal = 30, o_shippingFee = 0, o_tax = 0, o_total = 30,
      o_contactFirstName = ''Ada'', o_contactEmail = ''ada@example.org'',
      o_deliveryMethod = STORE_PICKUP, o_shippingRegion = None,
      o_items = [\<lparr>oi_productId = ''P'', oi_productName = ''Whey'', oi_productBrand = None,
                  oi_quantity = 3, oi_price = 10, oi_subtotal = 30\<rparr>]\<rparr>"

definition shop_db_ordered :: "OrderStatus \<Rightarrow> int \<Rightarrow> database" where
  "shop_db_ordered st q =
     \<lparr>products = [shop_product\<lparr>p_quantity := q\<rparr>], orders = [shop_order st]\<rparr>"

definition quiet_mailer :: mailer where
  "quiet_mailer = \<lparr>render_throws = False, transport_fails = False\<rparr>"

definition broken_mailer :: mailer where
  "broken_mailer = \<lparr>render_throws = False, transport_fails = True\<rparr>"

definition throwing_mailer :: mailer where
  "throwing_mailer = \<lparr>render_throws = True, transport_fails = False\<rparr>"

subsection \<open>A request against the tables\<close>

text \<open>
  The stock violations of a request read off the product table, item by item, and the
  two field checks that come before the batch lookup.
\<close>

definition stock_violations :: "database \<Rightarrow> itemReq list \<Rightarrow> stockError list" where
  "stock_violations db items =
     concat (map (\<lambda>item.
        case find (\<lambda>p. p_id p = i_productId item) (products db) of
          None \<Rightarrow> []
        | Some p \<Rightarrow>
            if p_quantity p < i_quantity item
            then [\<lparr>se_productId = i_productId item, se_productName = p_name p,
                   se_requested = i_quantity item, se_available = p_quantity p\<rparr>]
            else [])
      items)"


definition fields_valid :: "orderReq \<Rightarrow> bool" where
  "fields_valid req =
     (r_items req \<noteq> [] \<and> \<not> (r_deliveryMethod req = DELIVERY \<and> r_shippingInfo req = None))"

section \<open>Properties\<close>

subsection \<open>Order numbers\<close>

lemma length_pad_digits: "length (pad_digits k n) = k"
  by (induction k arbitrary: n) auto

lemma toString_split: "10 ^ k \<le> n \<Longrightarrow> toString n = toString (n div 10 ^ k) @ pad_digits k n"
proof (induction k arbitrary: n)
  case 0
  then show ?case by simp
next
  case (Suc k)
  have "(10::nat) \<le> 10 ^ Suc k" by simp
  with Suc.prems have big: "\<not> n < 10" by linarith
  from Suc.prems have "10 ^ k \<le> n div 10"
    by (simp add: less_eq_div_iff_mult_less_eq mult.commute)
  from Suc.IH [OF this]
  have "toString (n div 10) = toString (n div 10 div 10 ^ k) @ pad_digits k (n div 10)" .
  moreover have "n div 10 div 10 ^ k = n div 10 ^ Suc k"
    by (simp add: div_mult2_eq)
  moreover have "toString n = toString (n div 10) @ [digit_char (n mod 10)]"
    using big by (subst toString.simps) simp
  ultimately show ?case by simp
qed

lemma pad_digits_mod: "pad_digits k (n mod 10 ^ k) = pad_digits k n"
proof (induction k arbitrary: n)
  case 0
  then show ?case by simp
next
  case (Suc k)
  have a: "n mod 10 ^ Suc k div 10 = (n div 10) mod 10 ^ k"
    by (simp add: mod_mult2_eq)
  have b: "n mod 10 ^ Suc k mod 10 = n mod 10"
    by (simp add: mod_mod_cancel)
  show ?case using Suc.IH [of "n div 10"] by (simp add: a b del: power_Suc)
qed

lemma digit_char_is_digit: "is_digit (digit_char d)"
  by (simp add: is_digit_def digit_char_def)

lemma pad_digits_all_digits: "c \<in> set (pad_digits k n) \<Longrightarrow> is_digit c"
  by (induction k arbitrary: n) (auto simp: digit_char_is_digit)

lemma generateOrderNumber_pad:
  assumes "10 ^ 7 \<le> t"
  shows "generateOrderNumber t = pad_digits 7 t"
proof -
  from toString_split [OF assms]
  have "toString t = toString (t div 10 ^ 7) @ pad_digits 7 t" .
  then show ?thesis
    by (simp add: generateOrderNumber_def slice_last_def length_pad_digits)
qed

lemma pad_digits_numeral:
  "pad_digits (numeral k) n = pad_digits (pred_numeral k) (n div 10) @ [digit_char (n mod 10)]"
proof -
  have "pad_digits (Suc (pred_numeral k)) n
        = pad_digits (pred_numeral k) (n div 10) @ [digit_char (n mod 10)]"
    by (rule pad_digits.simps(2))
  then show ?thesis by (simp only: numeral_eq_Suc [of k, symmetric])
qed

lemma digit_value_digit_char: "d < 10 \<Longrightarrow> digit_value (digit_char d) = d"
  by (simp add: digit_value_def digit_char_def)

lemma decimal_value_snoc: "decimal_value (s @ [c]) = 10 * decimal_value s + digit_value c"
  by (simp add: decimal_value_def)

lemma decimal_value_toString: "decimal_value (toString n) = n"
proof (induction n rule: toString.induct)
  case (1 n)
  show ?case
  proof (cases "n < 10")
    case True
    then show ?thesis
      by (subst toString.simps) (simp add: decimal_value_def digit_value_digit_char)
  next
    case False
    with "1.IH" have "decimal_value (toString (n div 10)) = n div 10" by simp
    with False show ?thesis
      by (subst toString.simps) (simp add: decimal_value_snoc digit_value_digit_char)
  qed
qed

lemma decimal_value_pad_digits: "decimal_value (pad_digits k n) = n mod 10 ^ k"
proof (induction k arbitrary: n)
  case 0
  then show ?case by (simp add: decimal_value_def)
next
  case (Suc k)
  have "n mod 10 ^ Suc k = 10 * (n div 10 mod 10 ^ k) + n mod 10"
    by (simp add: mod_mult2_eq)
  with Suc.IH [of "n div 10"] show ?case
    by (simp add: decimal_value_snoc digit_value_digit_char del: power_Suc)
qed

lemma toString_digits: "c \<in> set (toString n) \<Longrightarrow> is_digit c"
proof (induction n rule: toString.induct)
  case (1 n)
  show ?case
  proof (cases "n < 10")
    case True
    with "1.prems" show ?thesis
      by (subst (asm) toString.simps) (simp add: digit_char_is_digit)
  next
    case False
    with "1.prems" "1.IH" show ?thesis
      by (subst (asm) toString.simps) (auto simp: digit_char_is_digit)
  qed
qed

lemma toString_nonempty: "toString n \<noteq> []"
  by (subst toString.simps) simp

lemma toString_no_leading_zero: "0 < n \<Longrightarrow> hd (toString n) \<noteq> CHR ''0''"
proof (induction n rule: toString.induct)
  case (1 n)
  show ?case
  proof (cases "n < 10")
    case True
    with "1.prems" show ?thesis
      by (subst toString.simps) (simp add: digit_char_def)
  next
    case False
    then have "0 < n div 10" by (simp add: div_greater_zero_iff)
    with "1.IH" False have "hd (toString (n div 10)) \<noteq> CHR ''0''" by simp
    with False show ?thesis
      by (subst toString.simps) (simp add: toString_nonempty)
  qed
qed

text \<open>
  Claim C10. \<open>toString\<close> is the decimal representation: its characters are decimal
  digits, the first is not \<^verbatim>\<open>0\<close>, and read back by the character codes they give the
  clock value. For a clock value of at least \<open>10\<^sup>7\<close> milliseconds the order number is the
  last seven characters of that representation: seven decimal digits which, read back,
  give the clock value modulo \<open>10\<^sup>7\<close>. Adding any multiple of \<open>10\<^sup>7\<close> milliseconds to
  the clock value gives the same order number, so the generator is not injective.
\<close>

theorem order_number_last_seven_digits:
  assumes "10 ^ 7 \<le> t"
  shows "(\<exists>front. toString t = front @ generateOrderNumber t)
       \<and> decimal_value (toString t) = t
       \<and> (\<forall>c \<in> set (toString t). is_digit c)
       \<and> hd (toString t) \<noteq> CHR ''0''
       \<and> generateOrderNumber t = pad_digits 7 (t mod 10 ^ 7)
       \<and> length (generateOrderNumber t) = 7
       \<and> (\<forall>c \<in> set (generateOrderNumber t). is_digit c)
       \<and> decimal_value (generateOrderNumber t) = t mod 10 ^ 7
       \<and> (\<forall>k. generateOrderNumber (t + k * 10 ^ 7) = generateOrderNumber t)"
proof -
  have g: "generateOrderNumber t = pad_digits 7 t"
    by (rule generateOrderNumber_pad [OF assms])
  have front: "\<exists>front. toString t = front @ generateOrderNumber t"
    using toString_split [OF assms] g by auto
  have val: "decimal_value (toString t) = t" by (rule decimal_value_toString)
  have tdig: "\<forall>c \<in> set (toString t). is_digit c" using toString_digits by blast
  have "0 < t" using assms by (cases "t = 0") simp_all
  then have lead: "hd (toString t) \<noteq> CHR ''0''" by (rule toString_no_leading_zero)
  have m: "generateOrderNumber t = pad_digits 7 (t mod 10 ^ 7)"
    using g by (simp only: pad_digits_mod)
  have len: "length (generateOrderNumber t) = 7"
    using g by (simp only: length_pad_digits)
  have dig: "\<forall>c \<in> set (generateOrderNumber t). is_digit c"
    using g pad_digits_all_digits by auto
  have gval: "decimal_value (generateOrderNumber t) = t mod 10 ^ 7"
    using g by (simp only: decimal_value_pad_digits)
  have coll: "generateOrderNumber (t + k * 10 ^ 7) = generateOrderNumber t" for k
  proof -
    have "10 ^ 7 \<le> t + k * 10 ^ 7" using assms by linarith
    then have "generateOrderNumber (t + k * 10 ^ 7) = pad_digits 7 (t + k * 10 ^ 7)"
      by (rule generateOrderNumber_pad)
    also have "\<dots> = pad_digits 7 ((t + k * 10 ^ 7) mod 10 ^ 7)"
      by (simp only: pad_digits_mod)
    also have "\<dots> = pad_digits 7 (t mod 10 ^ 7)" by simp
    finally show ?thesis using m by simp
  qed
  show ?thesis
    apply (intro conjI allI)
            apply (rule front)
           apply (rule val)
          apply (rule tdig)
         apply (rule lead)
        apply (rule m)
       apply (rule len)
      apply (rule dig)
     apply (rule gval)
    apply (rule coll)
    done
qed

theorem order_number_last_seven_digits_witness:
  "(10::nat) ^ 7 \<le> 1764009876543
   \<and> generateOrderNumber 1764009876543 = ''9876543''
   \<and> decimal_value (generateOrderNumber 1764009876543) = 9876543
   \<and> generateOrderNumber 1764019876543 = ''9876543''
   \<and> generateOrderNumber 1764000000123 = ''0000123''"
proof -
  have h: "(10::nat) ^ 7 \<le> 1764009876543" by simp
  have h': "(10::nat) ^ 7 \<le> 1764000000123" by simp
  note w = order_number_last_seven_digits [OF h]
  note w' = order_number_last_seven_digits [OF h']
  have a: "generateOrderNumber 1764009876543 = pad_digits 7 (1764009876543 mod 10 ^ 7)"
    using w by (elim conjE)
  have v: "decimal_value (generateOrderNumber 1764009876543) = 1764009876543 mod 10 ^ 7"
    using w by (elim conjE)
  have b: "generateOrderNumber (1764009876543 + 1 * 10 ^ 7) = generateOrderNumber 1764009876543"
    using w by (elim conjE allE)
  have c: "generateOrderNumber 1764000000123 = pad_digits 7 (1764000000123 mod 10 ^ 7)"
    using w' by (elim conjE)
  have e: "pad_digits 7 (1764009876543 mod 10 ^ 7) = ''9876543''"
    by (simp add: pad_digits_numeral digit_char_def)
  have e': "pad_digits 7 (1764000000123 mod 10 ^ 7) = ''0000123''"
    by (simp add: pad_digits_numeral digit_char_def)
  have r: "(1764009876543::nat) mod 10 ^ 7 = 9876543" by simp
  have s: "(1764009876543::nat) + 1 * 10 ^ 7 = 1764019876543" by simp
  from a e have a': "generateOrderNumber 1764009876543 = ''9876543''" by (rule trans)
  from v r have v': "decimal_value (generateOrderNumber 1764009876543) = 9876543" by (rule trans)
  from b s a' have b': "generateOrderNumber 1764019876543 = ''9876543''" by (simp only:)
  from c e' have c': "generateOrderNumber 1764000000123 = ''0000123''" by (rule trans)
  from h a' v' b' c' show ?thesis by (intro conjI)
qed

subsection \<open>Status transitions\<close>

lemma find_order_after_update:
  "find (\<lambda>row. o_id row = oid) (map (\<lambda>r. if o_id r = oid then r\<lparr>o_status := s\<rparr> else r) tbl)
   = map_option (\<lambda>r. r\<lparr>o_status := s\<rparr>) (find (\<lambda>row. o_id row = oid) tbl)"
  by (induction tbl) auto

lemma order_update_status_found:
  assumes "findUnique_order tbl oid = Some ord"
  shows "order_update_status oid s tbl
         = Some (ord\<lparr>o_status := s\<rparr>, map (\<lambda>r. if o_id r = oid then r\<lparr>o_status := s\<rparr> else r) tbl)"
  using assms by (simp add: order_update_status_def findUnique_order_def)

lemma findUnique_after_update:
  assumes "findUnique_order tbl oid = Some ord"
  shows "findUnique_order (map (\<lambda>r. if o_id r = oid then r\<lparr>o_status := s\<rparr> else r) tbl) oid
         = Some (ord\<lparr>o_status := s\<rparr>)"
  using assms by (simp add: findUnique_order_def find_order_after_update)

lemma parse_status_name: "parse_status (status_name s) = Some s"
  by (cases s) (simp_all add: parse_status_def all_statuses_def)

lemma allowed_iff_spec:
  "status \<in> set (allowedTransitions cur) \<longleftrightarrow> spec_allows cur status"
  by (cases cur) (auto simp: spec_allows_def spec_transitions_def)

lemma spec_allows_parse:
  "spec_allows cur status \<Longrightarrow> \<exists>s. status = status_name s \<and> (cur, s) \<in> set spec_transitions"
  by (auto simp: spec_allows_def list_ex_iff)

text \<open>
  Claim C4. For an order that exists, \<open>updateOrderStatus\<close> succeeds exactly when the
  pair of the current and the requested status is an edge of the transition table
  (PENDING to PAID or CANCELLED, PAID to PROCESSING or REFUNDED, PROCESSING to SHIPPED or
  CANCELLED, SHIPPED to DELIVERED), and the stored status is then the requested one. Every
  other request, self-transitions and requests on a terminal status included, is answered
  with the failure that names the current and the requested status, and the database is
  unchanged.
\<close>

theorem updateOrderStatus_transition_table:
  assumes "findUnique_order (orders db) oid = Some ord"
  shows "(spec_allows (o_status ord) status \<longrightarrow>
            (\<exists>s db'. status_name s = status
               \<and> (o_status ord, s) \<in> set spec_transitions
               \<and> updateOrderStatus db mail oid status
                   = (Updated (ord\<lparr>o_status := s\<rparr>), db',
                      catch_log ''Failed to send order status email:'' (sendOrderStatusEmail mail))
               \<and> findUnique_order (orders db') oid = Some (ord\<lparr>o_status := s\<rparr>)))
       \<and> (\<not> spec_allows (o_status ord) status \<longrightarrow>
            updateOrderStatus db mail oid status
              = (Failed (InvalidTransition (o_status ord) status), db, [])
            \<and> failure_message (InvalidTransition (o_status ord) status)
              = ''Invalid status transition from '' @ status_name (o_status ord) @ '' to '' @ status)"
proof (intro conjI impI)
  assume ok: "spec_allows (o_status ord) status"
  then obtain s where s: "status = status_name s" "(o_status ord, s) \<in> set spec_transitions"
    using spec_allows_parse by blast
  from ok have mem: "status \<in> set (allowedTransitions (o_status ord))"
    by (simp only: allowed_iff_spec)
  let ?tbl = "map (\<lambda>r. if o_id r = oid then r\<lparr>o_status := s\<rparr> else r) (orders db)"
  have run: "updateOrderStatus db mail oid status
             = (Updated (ord\<lparr>o_status := s\<rparr>), db\<lparr>orders := ?tbl\<rparr>,
                catch_log ''Failed to send order status email:'' (sendOrderStatusEmail mail))"
    using assms mem s(1)
    by (simp add: updateOrderStatus_def parse_status_name order_update_status_found [OF assms])
  have after: "findUnique_order (orders (db\<lparr>orders := ?tbl\<rparr>)) oid = Some (ord\<lparr>o_status := s\<rparr>)"
    using findUnique_after_update [OF assms] by simp
  from s run after
  show "\<exists>s db'. status_name s = status
               \<and> (o_status ord, s) \<in> set spec_transitions
               \<and> updateOrderStatus db mail oid status
                   = (Updated (ord\<lparr>o_status := s\<rparr>), db',
                      catch_log ''Failed to send order status email:'' (sendOrderStatusEmail mail))
               \<and> findUnique_order (orders db') oid = Some (ord\<lparr>o_status := s\<rparr>)"
    by blast
next
  assume no: "\<not> spec_allows (o_status ord) status"
  then have "status \<notin> set (allowedTransitions (o_status ord))"
    by (simp only: allowed_iff_spec not_False_eq_True)
  then show "updateOrderStatus db mail oid status
              = (Failed (InvalidTransition (o_status ord) status), db, [])"
    using assms by (simp add: updateOrderStatus_def)
next
  show "failure_message (InvalidTransition (o_status ord) status)
              = ''Invalid status transition from '' @ status_name (o_status ord) @ '' to '' @ status"
    by simp
qed

lemma shop_find: "findUnique_order (orders (shop_db_ordered st q)) ''o1'' = Some (shop_order st)"
  by (simp add: shop_db_ordered_def shop_order_def findUnique_order_def)

theorem updateOrderStatus_transition_table_witness:
  "findUnique_order (orders (shop_db_ordered PAID 2)) ''o1'' = Some (shop_order PAID)
   \<and> spec_allows PAID ''PROCESSING''
   \<and> fst (updateOrderStatus (shop_db_ordered PAID 2) quiet_mailer ''o1'' ''PROCESSING'')
       = Updated (shop_order PROCESSING)
   \<and> \<not> spec_allows PAID ''SHIPPED''
   \<and> updateOrderStatus (shop_db_ordered PAID 2) quiet_mailer ''o1'' ''SHIPPED''
       = (Failed (InvalidTransition PAID ''SHIPPED''), shop_db_ordered PAID 2, [])"
proof -
  have f: "findUnique_order (orders (shop_db_ordered PAID 2)) ''o1'' = Some (shop_order PAID)"
    by (rule shop_find)
  have st: "o_status (shop_order PAID) = PAID" by (simp add: shop_order_def)
  have a: "spec_allows PAID ''PROCESSING''"
    by (simp add: spec_allows_def spec_transitions_def)
  have b: "\<not> spec_allows PAID ''SHIPPED''"
    by (simp add: spec_allows_def spec_transitions_def)
  have upd: "shop_order PAID\<lparr>o_status := s\<rparr> = shop_order s" for s
    by (simp add: shop_order_def)
  from updateOrderStatus_transition_table [OF f, of "''PROCESSING''" quiet_mailer] a st
  obtain s db' where s: "status_name s = ''PROCESSING''"
     and r: "updateOrderStatus (shop_db_ordered PAID 2) quiet_mailer ''o1'' ''PROCESSING''
             = (Updated (shop_order PAID\<lparr>o_status := s\<rparr>), db',
                catch_log ''Failed to send order status email:'' (sendOrderStatusEmail quiet_mailer))"
    by auto
  from s have "s = PROCESSING" by (cases s) simp_all
  with r upd have ok: "fst (updateOrderStatus (shop_db_ordered PAID 2) quiet_mailer ''o1'' ''PROCESSING'')
       = Updated (shop_order PROCESSING)" by simp
  from updateOrderStatus_transition_table [OF f, of "''SHIPPED''" quiet_mailer] b st
  have bad: "updateOrderStatus (shop_db_ordered PAID 2) quiet_mailer ''o1'' ''SHIPPED''
       = (Failed (InvalidTransition PAID ''SHIPPED''), shop_db_ordered PAID 2, [])"
    by simp
  from f a ok b bad show ?thesis by (intro conjI)
qed

subsection \<open>Stock adjustments\<close>

lemma product_update_result:
  "product_update pid d tbl = Some tbl' \<Longrightarrow>
   tbl' = map (\<lambda>p. if p_id p = pid then p\<lparr>p_quantity := p_quantity p + d\<rparr> else p) tbl"
  by (simp add: product_update_def split: if_splits)

lemma product_update_ids:
  "product_update pid d tbl = Some tbl' \<Longrightarrow> map p_id tbl' = map p_id tbl"
  by (auto simp: product_update_def split: if_splits)

lemma adjust_all_ids:
  "adjust_all xs tbl = Some tbl' \<Longrightarrow> map p_id tbl' = map p_id tbl"
proof (induction xs arbitrary: tbl)
  case Nil
  then show ?case by simp
next
  case (Cons x xs)
  obtain pid d where x: "x = (pid, d)" by (cases x)
  from Cons.prems x obtain t1 where t1: "product_update pid d tbl = Some t1"
    and rest: "adjust_all xs t1 = Some tbl'"
    by (auto split: option.splits)
  from Cons.IH [OF rest] product_update_ids [OF t1] show ?case by simp
qed



lemma adjust_all_result:
  "adjust_all xs tbl = Some tbl' \<Longrightarrow>
   tbl' = map (\<lambda>p. p\<lparr>p_quantity := p_quantity p
                        + sum_list (map snd (filter (\<lambda>x. fst x = p_id p) xs))\<rparr>) tbl"
proof (induction xs arbitrary: tbl)
  case Nil
  then show ?case by (simp add: map_idI)
next
  case (Cons x xs)
  obtain pid d where x: "x = (pid, d)" by (cases x)
  from Cons.prems x obtain t1 where t1: "product_update pid d tbl = Some t1"
    and rest: "adjust_all xs t1 = Some tbl'"
    by (auto split: option.splits)
  from Cons.IH [OF rest] product_update_result [OF t1] x
  show ?case by (auto simp: o_def)
qed

lemma find_product_map:
  assumes "\<And>p. p_id (f p) = p_id p"
  shows "find (\<lambda>p. p_id p = pid) (map f tbl) = map_option f (find (\<lambda>p. p_id p = pid) tbl)"
  by (induction tbl) (auto simp: assms)

lemma stock_after_adjust:
  assumes "adjust_all xs (products db) = Some tbl'"
  shows "stock (db\<lparr>products := tbl'\<rparr>) pid
         = map_option (\<lambda>q. q + sum_list (map snd (filter (\<lambda>x. fst x = pid) xs))) (stock db pid)"
proof -
  let ?f = "\<lambda>p. p\<lparr>p_quantity := p_quantity p + sum_list (map snd (filter (\<lambda>x. fst x = p_id p) xs))\<rparr>"
  have tbl': "tbl' = map ?f (products db)" by (rule adjust_all_result [OF assms])
  have "find (\<lambda>p. p_id p = pid) (map ?f (products db))
        = map_option ?f (find (\<lambda>p. p_id p = pid) (products db))"
    by (rule find_product_map) simp
  then show ?thesis
    by (cases "find (\<lambda>p. p_id p = pid) (products db)")
       (auto simp: stock_def tbl' dest: find_Some_iff [THEN iffD1])
qed


lemma deduct_delta_absent:
  "pid \<notin> set (map i_productId items) \<Longrightarrow>
   sum_list (map snd (filter (\<lambda>x. fst x = pid) (map (\<lambda>item. (i_productId item, - i_quantity item)) items))) = 0"
  by (induction items) auto

lemma deduct_delta_distinct:
  "distinct (map i_productId items) \<Longrightarrow> item \<in> set items \<Longrightarrow>
   sum_list (map snd (filter (\<lambda>x. fst x = i_productId item) (map (\<lambda>item. (i_productId item, - i_quantity item)) items)))
   = - i_quantity item"
proof (induction items)
  case Nil
  then show ?case by simp
next
  case (Cons a items)
  show ?case
  proof (cases "item = a")
    case True
    with Cons.prems have "i_productId a \<notin> set (map i_productId items)" by simp
    from deduct_delta_absent [OF this] True show ?thesis by simp
  next
    case False
    with Cons.prems have mem: "item \<in> set items" and d: "distinct (map i_productId items)"
      and ne: "i_productId a \<noteq> i_productId item"
      by auto
    from Cons.IH [OF d mem] ne show ?thesis by simp
  qed
qed

subsection \<open>Cancellation\<close>






lemma cancelOrder_shop:
  "cancelOrder (shop_db_ordered PAID 2) m ''u1'' ''o1''
   = (Updated (shop_order CANCELLED), shop_db_ordered CANCELLED 5,
      catch_log ''Failed to send order cancellation email:'' (sendOrderStatusEmail m))"
  by (simp add: cancelOrder_def findUnique_order_def shop_db_ordered_def shop_order_def
      cancel_transaction_def order_update_status_def restore_inventory_def product_update_def
      shop_product_def in_int4_def)



subsection \<open>Order creation\<close>

subsubsection \<open>The batch lookup\<close>

lemma findMany_active_ids:
  "p_id ` set (findMany_active tbl ids)
   = {i \<in> set ids. \<exists>p \<in> set tbl. p_id p = i \<and> p_isActive p}"
  by (auto simp: findMany_active_def)

lemma findMany_active_distinct:
  "distinct (map p_id tbl) \<Longrightarrow> distinct (map p_id (findMany_active tbl ids))"
  by (simp add: findMany_active_def distinct_map_filter)

lemma findMany_active_length_le:
  assumes "distinct (map p_id tbl)"
  shows "length (findMany_active tbl ids) \<le> card (set ids)"
proof -
  have "length (findMany_active tbl ids) = length (map p_id (findMany_active tbl ids))" by simp
  also have "\<dots> = card (set (map p_id (findMany_active tbl ids)))"
    using findMany_active_distinct [OF assms, of ids] by (simp only: distinct_card)
  also have "\<dots> \<le> card (set ids)"
    by (rule card_mono) (auto simp: findMany_active_ids)
  finally show ?thesis .
qed

lemma lookup_complete:
  assumes d: "distinct (map p_id tbl)"
      and len: "length (findMany_active tbl ids) = length ids"
  shows "distinct ids \<and> (\<forall>i \<in> set ids. \<exists>p \<in> set tbl. p_id p = i \<and> p_isActive p)"
proof -
  let ?F = "findMany_active tbl ids"
  have le1: "length ?F \<le> card (set ids)" by (rule findMany_active_length_le [OF d])
  have le2: "card (set ids) \<le> length ids" by (rule card_length)
  from le1 le2 len have c: "card (set ids) = length ids" by linarith
  then have dist: "distinct ids" by (rule card_distinct)
  have "card (set (map p_id ?F)) = length ?F"
    using findMany_active_distinct [OF d, of ids] distinct_card [of "map p_id ?F"] by simp
  with len c have "card (set (map p_id ?F)) = card (set ids)" by simp
  moreover have "set (map p_id ?F) \<subseteq> set ids" by (auto simp: findMany_active_ids)
  ultimately have "set (map p_id ?F) = set ids"
    by (simp add: card_subset_eq)
  then have "\<forall>i \<in> set ids. \<exists>p \<in> set tbl. p_id p = i \<and> p_isActive p"
    using findMany_active_ids [of tbl ids] by auto
  with dist show ?thesis by simp
qed

lemma lookup_incomplete_repeated:
  assumes d: "distinct (map p_id tbl)" and rep: "\<not> distinct ids"
  shows "length (findMany_active tbl ids) \<noteq> length ids"
  using lookup_complete [OF d] rep by blast

lemma lookup_incomplete_missing:
  assumes d: "distinct (map p_id tbl)"
      and miss: "i \<in> set ids" "\<not> (\<exists>p \<in> set tbl. p_id p = i \<and> p_isActive p)"
  shows "length (findMany_active tbl ids) \<noteq> length ids"
  using lookup_complete [OF d] miss by blast

lemma lookup_complete_conv:
  assumes d: "distinct (map p_id tbl)" and dist: "distinct ids"
      and all: "\<forall>i \<in> set ids. \<exists>p \<in> set tbl. p_id p = i \<and> p_isActive p"
  shows "length (findMany_active tbl ids) = length ids"
proof -
  let ?F = "findMany_active tbl ids"
  have "set (map p_id ?F) = set ids" using all by (auto simp: findMany_active_ids)
  then have "card (set (map p_id ?F)) = card (set ids)" by simp
  moreover have "card (set (map p_id ?F)) = length ?F"
    using findMany_active_distinct [OF d, of ids] distinct_card [of "map p_id ?F"] by simp
  moreover have "card (set ids) = length ids" using dist by (rule distinct_card)
  ultimately show ?thesis by simp
qed

lemma missing_ids:
  "filter (\<lambda>i. i \<notin> p_id ` set (findMany_active (products db) ids)) ids
   = filter (\<lambda>i. \<not> is_active_product db i) ids"
  by (rule filter_cong) (auto simp: findMany_active_def is_active_product_def)

lemma find_by_id:
  "distinct (map p_id tbl) \<Longrightarrow> p \<in> set tbl \<Longrightarrow> find (\<lambda>q. p_id q = p_id p) tbl = Some p"
  by (induction tbl) auto

lemma find_in_lookup:
  assumes d: "distinct (map p_id tbl)" and i: "i \<in> set ids"
      and p: "p \<in> set tbl" "p_id p = i" "p_isActive p"
  shows "find (\<lambda>q. p_id q = i) (findMany_active tbl ids) = Some p"
    and "find (\<lambda>q. p_id q = i) tbl = Some p"
proof -
  have "p \<in> set (findMany_active tbl ids)" using i p by (simp add: findMany_active_def)
  from find_by_id [OF findMany_active_distinct [OF d] this] p(2)
  show "find (\<lambda>q. p_id q = i) (findMany_active tbl ids) = Some p" by simp
  from find_by_id [OF d p(1)] p(2) show "find (\<lambda>q. p_id q = i) tbl = Some p" by simp
qed

subsubsection \<open>The item loop\<close>

lemma order_items_loop_total:
  "\<forall>item \<in> set items. \<exists>p. find (\<lambda>p. p_id p = i_productId item) prods = Some p \<Longrightarrow>
   \<exists>r. order_items_loop prods items E S = Some r"
proof (induction items arbitrary: E S)
  case Nil
  then show ?case by simp
next
  case (Cons item items)
  from Cons.prems obtain p where p: "find (\<lambda>p. p_id p = i_productId item) prods = Some p"
    by auto
  from Cons.prems
  have "\<forall>item \<in> set items. \<exists>p. find (\<lambda>p. p_id p = i_productId item) prods = Some p" by simp
  from Cons.IH [OF this] p show ?case
    by (simp split: option.splits prod.splits) (metis option.distinct(1) surj_pair)
qed

lemma order_items_loop_result:
  "order_items_loop prods items E S = Some (ois, E', S') \<Longrightarrow>
     list_all2 (\<lambda>oi item. \<exists>p. find (\<lambda>p. p_id p = i_productId item) prods = Some p
                              \<and> oi = make_orderItem p item) ois items
   \<and> E' = E @ concat (map (\<lambda>item.
              case find (\<lambda>p. p_id p = i_productId item) prods of
                None \<Rightarrow> []
              | Some p \<Rightarrow> if p_quantity p < i_quantity item then [make_stockError p item] else [])
            items)
   \<and> S' = S + sum_list (map oi_subtotal ois)"
proof (induction items arbitrary: E S ois E' S')
  case Nil
  then show ?case by simp
next
  case (Cons item items)
  from Cons.prems obtain p where p: "find (\<lambda>p. p_id p = i_productId item) prods = Some p"
    by (auto split: option.splits)
  let ?E = "if p_quantity p < i_quantity item then E @ [make_stockError p item] else E"
  let ?S = "S + p_price p * real_of_int (i_quantity item)"
  from Cons.prems p obtain rest where
      rest: "order_items_loop prods items ?E ?S = Some (rest, E', S')"
    and ois: "ois = make_orderItem p item # rest"
    by (auto split: option.splits)
  note ih = Cons.IH [OF rest]
  have sub: "oi_subtotal (make_orderItem p item) = p_price p * real_of_int (i_quantity item)"
    by (simp add: make_orderItem_def)
  from ih p ois sub show ?case by auto
qed

subsubsection \<open>The paths through createOrder\<close>

lemma createOrder_lookup_mismatch:
  assumes "fields_valid req"
      and "length (findMany_active (products db) (map i_productId (r_items req)))
           \<noteq> length (r_items req)"
  shows "createOrder db now newId mail userId req
         = (Failed (ProductsNotFound
              (filter (\<lambda>i. \<not> is_active_product db i) (map i_productId (r_items req)))), db, [])"
  using assms by (simp add: createOrder_def fields_valid_def Let_def missing_ids)

lemma createOrder_insufficient:
  assumes "fields_valid req"
      and "length (findMany_active (products db) (map i_productId (r_items req)))
           = length (r_items req)"
      and "order_items_loop (findMany_active (products db) (map i_productId (r_items req)))
             (r_items req) [] 0 = Some (ois, errs, sub)"
      and "errs \<noteq> []"
  shows "createOrder db now newId mail userId req = (Failed (InsufficientStock errs), db, [])"
  using assms by (simp add: createOrder_def fields_valid_def Let_def)

lemma createOrder_fields_invalid:
  assumes "\<not> fields_valid req"
  shows "\<exists>f. createOrder db now newId mail userId req = (Failed f, db, [])"
  using assms by (auto simp: createOrder_def fields_valid_def)

lemma createOrder_Created:
  assumes "createOrder db now newId mail userId req = (Created ord, db', out)"
  shows "fields_valid req
       \<and> length (findMany_active (products db) (map i_productId (r_items req)))
           = length (r_items req)
       \<and> (\<exists>sub fee.
            order_items_loop (findMany_active (products db) (map i_productId (r_items req)))
              (r_items req) [] 0 = Some (o_items ord, [], sub)
          \<and> calculateShippingFee (r_deliveryMethod req)
               (case r_shippingInfo req of None \<Rightarrow> None | Some si \<Rightarrow> s_region si) = Some fee
          \<and> o_subtotal ord = sub \<and> o_shippingFee ord = fee \<and> o_tax ord = 0
          \<and> o_total ord = sub + fee + 0
          \<and> o_status ord = PENDING \<and> o_orderNumber ord = generateOrderNumber now
          \<and> o_id ord = newId \<and> o_userId ord = userId)
       \<and> create_transaction db ord (r_items req) = Some db'"
  using assms
  by (auto simp: createOrder_def fields_valid_def Let_def server_error_def
           split: if_splits option.splits prod.splits)

lemma createOrder_failed_keeps_database:
  assumes "fst (createOrder db now newId mail userId req) = Failed f"
  shows "fst (snd (createOrder db now newId mail userId req)) = db"
  using assms
  by (auto simp: createOrder_def Let_def server_error_def
           split: if_splits option.splits prod.splits)

text \<open>
  Claim C6. With product ids unique in the product table (its primary key): when some
  item of the request names a product id that has no active row, \<open>createOrder\<close> fails and
  returns the database as it was, so no order, no order item and no stock change exists;
  for a request that passes the field checks the failure is the one for products not found
  or inactive, and it carries the requested ids that have no active row, the id of that
  item among them.
\<close>

theorem createOrder_missing_products:
  assumes pk: "distinct (map p_id (products db))"
      and item: "item \<in> set (r_items req)"
      and miss: "\<not> is_active_product db (i_productId item)"
  shows "(\<exists>f. createOrder db now newId mail userId req = (Failed f, db, []))
       \<and> (fields_valid req \<longrightarrow>
            createOrder db now newId mail userId req
              = (Failed (ProductsNotFound
                   (filter (\<lambda>i. \<not> is_active_product db i) (map i_productId (r_items req)))),
                 db, [])
            \<and> i_productId item
                \<in> set (filter (\<lambda>i. \<not> is_active_product db i) (map i_productId (r_items req))))"
proof -
  let ?ids = "map i_productId (r_items req)"
  have mem: "i_productId item \<in> set ?ids" using item by simp
  have "length (findMany_active (products db) ?ids) \<noteq> length ?ids"
    using lookup_incomplete_missing [OF pk mem] miss
    by (simp add: is_active_product_def)
  then have ne: "length (findMany_active (products db) ?ids) \<noteq> length (r_items req)" by simp
  have valid: "createOrder db now newId mail userId req
              = (Failed (ProductsNotFound (filter (\<lambda>i. \<not> is_active_product db i) ?ids)), db, [])"
    if "fields_valid req"
    using createOrder_lookup_mismatch [OF that ne] .
  have listed: "i_productId item \<in> set (filter (\<lambda>i. \<not> is_active_product db i) ?ids)"
    using mem miss by simp
  have any: "\<exists>f. createOrder db now newId mail userId req = (Failed f, db, [])"
  proof (cases "fields_valid req")
    case True
    from valid [OF True] show ?thesis by blast
  next
    case False
    then show ?thesis by (rule createOrder_fields_invalid)
  qed
  from any valid listed show ?thesis by blast
qed

lemma shop_db_pk: "distinct (map p_id (products shop_db))"
  by (simp add: shop_db_def)

lemma shop_active: "is_active_product shop_db pid \<longleftrightarrow> pid = ''P''"
  by (auto simp: is_active_product_def shop_db_def shop_product_def)

theorem createOrder_missing_products_witness:
  "distinct (map p_id (products shop_db))
   \<and> shop_item ''X'' 1 \<in> set (r_items (shop_request [shop_item ''P'' 1, shop_item ''X'' 1]))
   \<and> \<not> is_active_product shop_db (i_productId (shop_item ''X'' 1))
   \<and> fields_valid (shop_request [shop_item ''P'' 1, shop_item ''X'' 1])
   \<and> createOrder shop_db 1764000000123 ''o1'' quiet_mailer ''u1''
        (shop_request [shop_item ''P'' 1, shop_item ''X'' 1])
      = (Failed (ProductsNotFound [''X'']), shop_db, [])"
proof -
  let ?req = "shop_request [shop_item ''P'' 1, shop_item ''X'' 1]"
  have i: "shop_item ''X'' 1 \<in> set (r_items ?req)" by (simp add: shop_request_def)
  have m: "\<not> is_active_product shop_db (i_productId (shop_item ''X'' 1))"
    by (simp add: shop_active shop_item_def)
  have v: "fields_valid ?req" by (simp add: fields_valid_def shop_request_def)
  have l: "filter (\<lambda>i. \<not> is_active_product shop_db i) (map i_productId (r_items ?req)) = [''X'']"
    by (simp add: shop_active shop_request_def shop_item_def)
  from createOrder_missing_products [OF shop_db_pk i m, of 1764000000123 "''o1''" quiet_mailer "''u1''"] v l
  have "createOrder shop_db 1764000000123 ''o1'' quiet_mailer ''u1'' ?req
      = (Failed (ProductsNotFound [''X'']), shop_db, [])" by simp
  with shop_db_pk i m v show ?thesis by (intro conjI)
qed

text \<open>
  Claim C8 as it is stated fails on a request that names the active product \<open>P\<close> twice
  and a product \<open>X\<close> that does not exist: the request is rejected with the failure for
  products not found or inactive, and the list that comes with it is not empty.
\<close>

theorem createOrder_repeated_product_counterexample:
  "is_active_product shop_db ''P''
   \<and> map i_productId (r_items (shop_request [shop_item ''P'' 1, shop_item ''P'' 2, shop_item ''X'' 1]))
       = [''P'', ''P'', ''X'']
   \<and> createOrder shop_db 1764000000123 ''o1'' quiet_mailer ''u1''
        (shop_request [shop_item ''P'' 1, shop_item ''P'' 2, shop_item ''X'' 1])
      = (Failed (ProductsNotFound [''X'']), shop_db, [])"
proof -
  have a: "is_active_product shop_db ''P''" by (simp add: shop_active)
  have b: "map i_productId
             (r_items (shop_request [shop_item ''P'' 1, shop_item ''P'' 2, shop_item ''X'' 1]))
           = [''P'', ''P'', ''X'']"
    by (simp add: shop_request_def shop_item_def)
  have c: "createOrder shop_db 1764000000123 ''o1'' quiet_mailer ''u1''
        (shop_request [shop_item ''P'' 1, shop_item ''P'' 2, shop_item ''X'' 1])
      = (Failed (ProductsNotFound [''X'']), shop_db, [])"
    by (simp add: createOrder_def shop_request_def shop_item_def findMany_active_def
        shop_db_def shop_product_def Let_def)
  from a b c show ?thesis by (intro conjI)
qed

text \<open>
  Claim C8, amended. With product ids unique in the product table: a request that passes
  the field checks and names some product id in more than one item is rejected with the
  failure for products not found or inactive, the database unchanged (no order is
  created and the entries are not merged); the list that comes with the failure holds
  the requested ids that have no active row, so it is empty exactly when every requested
  id is an active product.
\<close>

theorem createOrder_repeated_product:
  assumes pk: "distinct (map p_id (products db))"
      and valid: "fields_valid req"
      and rep: "\<not> distinct (map i_productId (r_items req))"
  shows "createOrder db now newId mail userId req
           = (Failed (ProductsNotFound
                (filter (\<lambda>i. \<not> is_active_product db i) (map i_productId (r_items req)))),
              db, [])
       \<and> (filter (\<lambda>i. \<not> is_active_product db i) (map i_productId (r_items req)) = []
            \<longleftrightarrow> list_all (is_active_product db) (map i_productId (r_items req)))"
proof -
  let ?ids = "map i_productId (r_items req)"
  have "length (findMany_active (products db) ?ids) \<noteq> length ?ids"
    by (rule lookup_incomplete_repeated [OF pk rep])
  then have ne: "length (findMany_active (products db) ?ids) \<noteq> length (r_items req)" by simp
  have "filter (\<lambda>i. \<not> is_active_product db i) ?ids = []
            \<longleftrightarrow> list_all (is_active_product db) ?ids"
    by (simp add: filter_empty_conv list_all_iff)
  with createOrder_lookup_mismatch [OF valid ne] show ?thesis by blast
qed

theorem createOrder_repeated_product_witness:
  "distinct (map p_id (products shop_db))
   \<and> fields_valid (shop_request [shop_item ''P'' 1, shop_item ''P'' 2])
   \<and> \<not> distinct (map i_productId (r_items (shop_request [shop_item ''P'' 1, shop_item ''P'' 2])))
   \<and> list_all (is_active_product shop_db)
        (map i_productId (r_items (shop_request [shop_item ''P'' 1, shop_item ''P'' 2])))
   \<and> createOrder shop_db 1764000000123 ''o1'' quiet_mailer ''u1''
        (shop_request [shop_item ''P'' 1, shop_item ''P'' 2])
      = (Failed (ProductsNotFound []), shop_db, [])"
proof -
  let ?req = "shop_request [shop_item ''P'' 1, shop_item ''P'' 2]"
  have v: "fields_valid ?req" by (simp add: fields_valid_def shop_request_def)
  have r: "\<not> distinct (map i_productId (r_items ?req))"
    by (simp add: shop_request_def shop_item_def)
  have a: "list_all (is_active_product shop_db) (map i_productId (r_items ?req))"
    by (simp add: shop_active shop_request_def shop_item_def)
  from createOrder_repeated_product [OF shop_db_pk v r, of 1764000000123 "''o1''" quiet_mailer "''u1''"] a
  have "createOrder shop_db 1764000000123 ''o1'' quiet_mailer ''u1'' ?req
      = (Failed (ProductsNotFound []), shop_db, [])" by simp
  with shop_db_pk v r a show ?thesis by (intro conjI)
qed

lemma create_transaction_result:
  assumes "create_transaction db newOrder items = Some db'"
  shows "\<exists>ps. deduct_inventory items (products db) = Some ps
            \<and> db' = \<lparr>products = ps, orders = orders db @ [newOrder]\<rparr>"
  using assms
  by (auto simp: create_transaction_def order_create_def split: option.splits if_splits)

lemma stock_after_deduct:
  assumes "deduct_inventory items (products db) = Some ps"
  shows "stock \<lparr>products = ps, orders = os\<rparr> pid
         = map_option (\<lambda>q. q + sum_list (map snd (filter (\<lambda>x. fst x = pid)
               (map (\<lambda>item. (i_productId item, - i_quantity item)) items)))) (stock db pid)"
proof -
  have "stock \<lparr>products = ps, orders = os\<rparr> pid = stock (db\<lparr>products := ps\<rparr>) pid"
    by (simp add: stock_def)
  with stock_after_adjust [OF assms [unfolded deduct_inventory_def], of pid]
  show ?thesis by simp
qed

lemma resolved_item:
  assumes pk: "distinct (map p_id (products db))"
      and item: "item \<in> set items"
      and act: "is_active_product db (i_productId item)"
  shows "\<exists>p. p \<in> set (products db) \<and> p_id p = i_productId item
           \<and> find (\<lambda>q. p_id q = i_productId item)
                (findMany_active (products db) (map i_productId items)) = Some p
           \<and> find (\<lambda>q. p_id q = i_productId item) (products db) = Some p"
proof -
  from act obtain p where p: "p \<in> set (products db)" "p_id p = i_productId item" "p_isActive p"
    by (auto simp: is_active_product_def)
  have mem: "i_productId item \<in> set (map i_productId items)" using item by simp
  from find_in_lookup [OF pk mem p] p show ?thesis by blast
qed

lemma loop_violations:
  assumes pk: "distinct (map p_id (products db))"
      and act: "list_all (is_active_product db) (map i_productId items)"
  shows "concat (map (\<lambda>item.
              case find (\<lambda>p. p_id p = i_productId item)
                     (findMany_active (products db) (map i_productId items)) of
                None \<Rightarrow> []
              | Some p \<Rightarrow> if p_quantity p < i_quantity item then [make_stockError p item] else [])
            items)
         = stock_violations db items"
proof -
  have "(case find (\<lambda>p. p_id p = i_productId item)
                (findMany_active (products db) (map i_productId items)) of
           None \<Rightarrow> []
         | Some p \<Rightarrow> if p_quantity p < i_quantity item then [make_stockError p item] else [])
        = (case find (\<lambda>p. p_id p = i_productId item) (products db) of
             None \<Rightarrow> []
           | Some p \<Rightarrow>
               if p_quantity p < i_quantity item
               then [\<lparr>se_productId = i_productId item, se_productName = p_name p,
                      se_requested = i_quantity item, se_available = p_quantity p\<rparr>]
               else [])"
    if "item \<in> set items" for item
  proof -
    from act that have "is_active_product db (i_productId item)" by (simp add: list_all_iff)
    from resolved_item [OF pk that this] obtain p where
      "p_id p = i_productId item"
      "find (\<lambda>q. p_id q = i_productId item)
         (findMany_active (products db) (map i_productId items)) = Some p"
      "find (\<lambda>q. p_id q = i_productId item) (products db) = Some p"
      by blast
    then show ?thesis by (simp add: make_stockError_def)
  qed
  then show ?thesis
    unfolding stock_violations_def
    by (intro arg_cong [where f = concat] map_cong) simp_all
qed

lemma stock_violations_member:
  assumes "item \<in> set items"
      and "find (\<lambda>q. p_id q = i_productId item) (products db) = Some p"
      and "p_quantity p < i_quantity item"
  shows "\<lparr>se_productId = i_productId item, se_productName = p_name p,
          se_requested = i_quantity item, se_available = p_quantity p\<rparr>
         \<in> set (stock_violations db items)"
  using assms by (force simp: stock_violations_def)

lemma stock_violations_empty:
  assumes "stock_violations db items = []"
      and "item \<in> set items"
      and "find (\<lambda>q. p_id q = i_productId item) (products db) = Some p"
  shows "i_quantity item \<le> p_quantity p"
proof (rule ccontr)
  assume "\<not> i_quantity item \<le> p_quantity p"
  then have "p_quantity p < i_quantity item" by simp
  from stock_violations_member [OF assms(2,3) this] assms(1) show False by simp
qed

text \<open>
  Claim C2 as it is stated fails on a request that names the product \<open>P\<close> (stock 5) twice,
  once for 6 units: the request is rejected by the count of the batch lookup, with the
  failure for products not found or inactive and an empty list, and the item that exceeds
  the stock is not listed.
\<close>

theorem createOrder_over_stock_counterexample:
  "map i_productId (r_items (shop_request [shop_item ''P'' 6, shop_item ''P'' 1])) = [''P'', ''P'']
   \<and> stock shop_db ''P'' = Some 5
   \<and> i_quantity (shop_item ''P'' 6) = 6
   \<and> createOrder shop_db 1764000000123 ''o1'' quiet_mailer ''u1''
        (shop_request [shop_item ''P'' 6, shop_item ''P'' 1])
      = (Failed (ProductsNotFound []), shop_db, [])"
proof -
  have a: "map i_productId (r_items (shop_request [shop_item ''P'' 6, shop_item ''P'' 1]))
           = [''P'', ''P'']"
    by (simp add: shop_request_def shop_item_def)
  have b: "stock shop_db ''P'' = Some 5"
    by (simp add: stock_def shop_db_def shop_product_def)
  have c: "i_quantity (shop_item ''P'' 6) = 6" by (simp add: shop_item_def)
  have d: "createOrder shop_db 1764000000123 ''o1'' quiet_mailer ''u1''
        (shop_request [shop_item ''P'' 6, shop_item ''P'' 1])
      = (Failed (ProductsNotFound []), shop_db, [])"
    by (simp add: createOrder_def shop_request_def shop_item_def findMany_active_def
        shop_db_def shop_product_def Let_def)
  from a b c d show ?thesis by (intro conjI)
qed

text \<open>
  Claim C2, amended. With product ids unique in the product table: when \<open>createOrder\<close>
  succeeds, every item's product had at least the requested quantity in stock and its
  stock is now lower by exactly that quantity, and the stock of every product the request
  does not name is unchanged. When some item asks for more than the stock of its
  product, \<open>createOrder\<close> fails and the database is unchanged: no stock has moved and no
  order exists. The failure is the one for the missing shipping address when the field
  checks fail; otherwise, when the request names a product id twice or an id without an
  active row, the one for products not found or inactive; otherwise the insufficient-stock
  failure, which lists product id, name, requested and available quantity for every item
  of the request that exceeds its product's stock, that item among them.
\<close>

theorem createOrder_stock_all_or_nothing:
  assumes pk: "distinct (map p_id (products db))"
  shows "(createOrder db now newId mail userId req = (Created ord, db', out) \<longrightarrow>
            (\<forall>item \<in> set (r_items req).
               \<exists>q. stock db (i_productId item) = Some q \<and> i_quantity item \<le> q
                 \<and> stock db' (i_productId item) = Some (q - i_quantity item))
          \<and> (\<forall>pid. pid \<notin> set (map i_productId (r_items req)) \<longrightarrow> stock db' pid = stock db pid))
       \<and> (short \<in> set (r_items req)
            \<and> find (\<lambda>q. p_id q = i_productId short) (products db) = Some p
            \<and> p_quantity p < i_quantity short \<longrightarrow>
            createOrder db now newId mail userId req
              = (Failed
                   (if \<not> fields_valid req then ShippingRequired
                    else if distinct (map i_productId (r_items req))
                            \<and> list_all (is_active_product db) (map i_productId (r_items req))
                    then InsufficientStock (stock_violations db (r_items req))
                    else ProductsNotFound
                           (filter (\<lambda>i. \<not> is_active_product db i) (map i_productId (r_items req)))),
                 db, [])
            \<and> \<lparr>se_productId = i_productId short, se_productName = p_name p,
                se_requested = i_quantity short, se_available = p_quantity p\<rparr>
               \<in> set (stock_violations db (r_items req)))"
proof (intro conjI impI)
  assume run: "createOrder db now newId mail userId req = (Created ord, db', out)"
  let ?items = "r_items req"
  let ?ids = "map i_productId ?items"
  let ?F = "findMany_active (products db) ?ids"
  from createOrder_Created [OF run] obtain sub where
        len: "length ?F = length ?items"
    and loop: "order_items_loop ?F ?items [] 0 = Some (o_items ord, [], sub)"
    and tx: "create_transaction db ord ?items = Some db'"
    by blast
  from len have len': "length ?F = length ?ids" by simp
  from lookup_complete [OF pk len'] have dist: "distinct ?ids"
    and act: "list_all (is_active_product db) ?ids"
    by (auto simp: is_active_product_def list_all_iff)
  from order_items_loop_result [OF loop] loop_violations [OF pk act]
  have none: "stock_violations db ?items = []" by simp
  from create_transaction_result [OF tx] obtain ps where
        ps: "deduct_inventory ?items (products db) = Some ps"
    and db': "db' = \<lparr>products = ps, orders = orders db @ [ord]\<rparr>"
    by blast
  show "\<forall>item \<in> set ?items.
               \<exists>q. stock db (i_productId item) = Some q \<and> i_quantity item \<le> q
                 \<and> stock db' (i_productId item) = Some (q - i_quantity item)"
  proof
    fix item assume item: "item \<in> set ?items"
    from act item have "is_active_product db (i_productId item)" by (simp add: list_all_iff)
    from resolved_item [OF pk item this] obtain p where
      p: "find (\<lambda>q. p_id q = i_productId item) (products db) = Some p" by blast
    then have q: "stock db (i_productId item) = Some (p_quantity p)" by (simp add: stock_def)
    have le: "i_quantity item \<le> p_quantity p" by (rule stock_violations_empty [OF none item p])
    have "stock db' (i_productId item) = Some (p_quantity p - i_quantity item)"
      unfolding db' stock_after_deduct [OF ps] q deduct_delta_distinct [OF dist item] by simp
    with q le show "\<exists>q. stock db (i_productId item) = Some q \<and> i_quantity item \<le> q
                 \<and> stock db' (i_productId item) = Some (q - i_quantity item)" by blast
  qed
  show "\<forall>pid. pid \<notin> set ?ids \<longrightarrow> stock db' pid = stock db pid"
  proof (intro allI impI)
    fix pid assume "pid \<notin> set ?ids"
    from deduct_delta_absent [OF this] show "stock db' pid = stock db pid"
      unfolding db' stock_after_deduct [OF ps] by (simp add: option.map_ident)
  qed
next
  assume h: "short \<in> set (r_items req)
            \<and> find (\<lambda>q. p_id q = i_productId short) (products db) = Some p
            \<and> p_quantity p < i_quantity short"
  let ?items = "r_items req"
  let ?ids = "map i_productId ?items"
  let ?F = "findMany_active (products db) ?ids"
  from h have short: "short \<in> set ?items"
    and p: "find (\<lambda>q. p_id q = i_productId short) (products db) = Some p"
    and less: "p_quantity p < i_quantity short"
    by blast+
  show mem: "\<lparr>se_productId = i_productId short, se_productName = p_name p,
                se_requested = i_quantity short, se_available = p_quantity p\<rparr>
               \<in> set (stock_violations db ?items)"
    by (rule stock_violations_member [OF short p less])
  show "createOrder db now newId mail userId req
              = (Failed
                   (if \<not> fields_valid req then ShippingRequired
                    else if distinct ?ids \<and> list_all (is_active_product db) ?ids
                    then InsufficientStock (stock_violations db ?items)
                    else ProductsNotFound (filter (\<lambda>i. \<not> is_active_product db i) ?ids)),
                 db, [])"
  proof (cases "fields_valid req")
    case False
    with short have "r_deliveryMethod req = DELIVERY \<and> r_shippingInfo req = None"
      by (auto simp: fields_valid_def)
    with short False show ?thesis by (auto simp: createOrder_def)
  next
    case valid: True
    show ?thesis
    proof (cases "distinct ?ids \<and> list_all (is_active_product db) ?ids")
      case True
      then have dist: "distinct ?ids" and act: "list_all (is_active_product db) ?ids" by blast+
      have "\<forall>i \<in> set ?ids. \<exists>p \<in> set (products db). p_id p = i \<and> p_isActive p"
        using act by (simp add: list_all_iff is_active_product_def)
      from lookup_complete_conv [OF pk dist this]
      have len: "length ?F = length ?items" by simp
      have "\<forall>item \<in> set ?items. \<exists>p. find (\<lambda>p. p_id p = i_productId item) ?F = Some p"
      proof
        fix item assume item: "item \<in> set ?items"
        from act item have "is_active_product db (i_productId item)" by (simp add: list_all_iff)
        from resolved_item [OF pk item this]
        show "\<exists>p. find (\<lambda>p. p_id p = i_productId item) ?F = Some p" by blast
      qed
      from order_items_loop_total [OF this, of "[]" 0]
      obtain ois errs sub where loop: "order_items_loop ?F ?items [] 0 = Some (ois, errs, sub)"
        by (metis surj_pair)
      from order_items_loop_result [OF loop] loop_violations [OF pk act]
      have errs: "errs = stock_violations db ?items" by simp
      with mem have "errs \<noteq> []" by auto
      from createOrder_insufficient [OF valid len loop this] errs valid True
      show ?thesis by simp
    next
      case False
      have "length ?F \<noteq> length ?ids"
      proof
        assume "length ?F = length ?ids"
        from lookup_complete [OF pk this] have "distinct ?ids \<and> list_all (is_active_product db) ?ids"
          by (auto simp: is_active_product_def list_all_iff)
        with False show False by contradiction
      qed
      then have "length ?F \<noteq> length ?items" by simp
      from createOrder_lookup_mismatch [OF valid this] valid False
      show ?thesis by simp
    qed
  qed
qed

lemma shop_order_number: "generateOrderNumber 1764000000123 = ''0000123''"
  by (simp add: generateOrderNumber_def slice_last_def toString.simps digit_char_def)

lemma createOrder_shop:
  "createOrder shop_db 1764000000123 ''o1'' m ''u1'' (shop_request [shop_item ''P'' 3])
   = (Created (shop_order PENDING), shop_db_ordered PENDING 2,
      catch_log ''Failed to send order confirmation email:'' (sendOrderConfirmationEmail m))"
  by (simp add: createOrder_def shop_request_def shop_item_def findMany_active_def
      shop_db_def shop_product_def Let_def make_orderItem_def calculateShippingFee_def
      create_transaction_def order_create_def deduct_inventory_def product_update_def
      order_columns_fit_def fits_decimal_10_2_def in_int4_def
      shop_order_number shop_order_def shop_db_ordered_def)

lemma quiet_confirmation_log:
  "catch_log ''Failed to send order confirmation email:'' (sendOrderConfirmationEmail quiet_mailer)
   = [''Email sent:'']"
  by (simp add: catch_log_def sendOrderConfirmationEmail_def sendEmail_def quiet_mailer_def)

lemma shop_db_ordered_pk: "distinct (map p_id (products (shop_db_ordered st q)))"
  by (simp add: shop_db_ordered_def)

lemma shop_ordered_active: "is_active_product (shop_db_ordered st q) pid \<longleftrightarrow> pid = ''P''"
  by (auto simp: is_active_product_def shop_db_ordered_def shop_product_def)

theorem createOrder_stock_all_or_nothing_witness:
  "distinct (map p_id (products shop_db))
   \<and> createOrder shop_db 1764000000123 ''o1'' quiet_mailer ''u1'' (shop_request [shop_item ''P'' 3])
      = (Created (shop_order PENDING), shop_db_ordered PENDING 2, [''Email sent:''])
   \<and> stock shop_db ''P'' = Some 5
   \<and> stock (shop_db_ordered PENDING 2) ''P'' = Some 2
   \<and> distinct (map p_id (products (shop_db_ordered PENDING 2)))
   \<and> shop_item ''P'' 3 \<in> set (r_items (shop_request [shop_item ''P'' 3]))
   \<and> find (\<lambda>q. p_id q = i_productId (shop_item ''P'' 3)) (products (shop_db_ordered PENDING 2))
      = Some (shop_product\<lparr>p_quantity := 2\<rparr>)
   \<and> p_quantity (shop_product\<lparr>p_quantity := 2\<rparr>) < i_quantity (shop_item ''P'' 3)
   \<and> createOrder (shop_db_ordered PENDING 2) 1764000000124 ''o2'' quiet_mailer ''u1''
        (shop_request [shop_item ''P'' 3])
      = (Failed (InsufficientStock
           [\<lparr>se_productId = ''P'', se_productName = ''Whey'', se_requested = 3, se_available = 2\<rparr>]),
         shop_db_ordered PENDING 2, [])"
proof -
  let ?req = "shop_request [shop_item ''P'' 3]"
  let ?db2 = "shop_db_ordered PENDING 2"
  have run: "createOrder shop_db 1764000000123 ''o1'' quiet_mailer ''u1'' ?req
      = (Created (shop_order PENDING), ?db2, [''Email sent:''])"
    by (simp only: createOrder_shop quiet_confirmation_log)
  have s5: "stock shop_db ''P'' = Some 5"
    by (simp add: stock_def shop_db_def shop_product_def)
  have it: "shop_item ''P'' 3 \<in> set (r_items ?req)" by (simp add: shop_request_def)
  have id: "i_productId (shop_item ''P'' 3) = ''P''" and qty: "i_quantity (shop_item ''P'' 3) = 3"
    by (simp_all add: shop_item_def)
  from createOrder_stock_all_or_nothing [OF shop_db_pk, of 1764000000123 "''o1''" quiet_mailer
      "''u1''" ?req "shop_order PENDING" ?db2 "[''Email sent:'']"] run it
  obtain q where "stock shop_db (i_productId (shop_item ''P'' 3)) = Some q"
     and "stock ?db2 (i_productId (shop_item ''P'' 3)) = Some (q - i_quantity (shop_item ''P'' 3))"
    by blast
  with s5 id qty have s2: "stock ?db2 ''P'' = Some 2" by simp
  have v: "fields_valid ?req" by (simp add: fields_valid_def shop_request_def)
  have d: "distinct (map i_productId (r_items ?req))" by (simp add: shop_request_def)
  have a: "list_all (is_active_product ?db2) (map i_productId (r_items ?req))"
    by (simp add: shop_ordered_active shop_request_def shop_item_def)
  have f: "find (\<lambda>q. p_id q = i_productId (shop_item ''P'' 3)) (products ?db2)
      = Some (shop_product\<lparr>p_quantity := 2\<rparr>)"
    by (simp add: shop_db_ordered_def shop_item_def shop_product_def)
  have l: "p_quantity (shop_product\<lparr>p_quantity := 2\<rparr>) < i_quantity (shop_item ''P'' 3)"
    by (simp add: shop_item_def)
  have viol: "stock_violations ?db2 (r_items ?req)
      = [\<lparr>se_productId = ''P'', se_productName = ''Whey'', se_requested = 3, se_available = 2\<rparr>]"
    by (simp add: stock_violations_def shop_db_ordered_def shop_request_def shop_item_def
        shop_product_def)
  from createOrder_stock_all_or_nothing [OF shop_db_ordered_pk, of PENDING 2 1764000000124 "''o2''"
      quiet_mailer "''u1''" ?req _ _ _ "shop_item ''P'' 3" "shop_product\<lparr>p_quantity := 2\<rparr>"]
    it f l
  have "createOrder ?db2 1764000000124 ''o2'' quiet_mailer ''u1'' ?req
      = (Failed
           (if \<not> fields_valid ?req then ShippingRequired
            else if distinct (map i_productId (r_items ?req))
                    \<and> list_all (is_active_product ?db2) (map i_productId (r_items ?req))
            then InsufficientStock (stock_violations ?db2 (r_items ?req))
            else ProductsNotFound
                   (filter (\<lambda>i. \<not> is_active_product ?db2 i) (map i_productId (r_items ?req)))),
         ?db2, [])"
    by blast
  with v d a viol have fail: "createOrder ?db2 1764000000124 ''o2'' quiet_mailer ''u1'' ?req
      = (Failed (InsufficientStock
           [\<lparr>se_productId = ''P'', se_productName = ''Whey'', se_requested = 3, se_available = 2\<rparr>]),
         ?db2, [])" by simp
  from shop_db_pk run s5 s2 shop_db_ordered_pk [of PENDING 2] it f l fail
  show ?thesis by (intro conjI)
qed

text \<open>
  Claim C3. For every order that \<open>createOrder\<close> creates: the total is the subtotal plus
  the shipping fee plus the tax, the tax is 0; item by item, the order item has the
  product id and the quantity of the request's item, its price is the price of an active
  row of the product table as it was when the handler started, and its subtotal is that
  price times the quantity; the item subtotals add up to the order's subtotal; and the
  order is stored.
\<close>

theorem createOrder_totals:
  assumes run: "createOrder db now newId mail userId req = (Created ord, db', out)"
  shows "o_total ord = o_subtotal ord + o_shippingFee ord + o_tax ord
       \<and> o_tax ord = 0
       \<and> list_all2 (\<lambda>oi item.
            oi_productId oi = i_productId item \<and> oi_quantity oi = i_quantity item
            \<and> oi_subtotal oi = oi_price oi * real_of_int (oi_quantity oi)
            \<and> (\<exists>p \<in> set (products db). p_id p = i_productId item \<and> p_isActive p
                  \<and> oi_price oi = p_price p))
           (o_items ord) (r_items req)
       \<and> sum_list (map oi_subtotal (o_items ord)) = o_subtotal ord
       \<and> ord \<in> set (orders db')"
proof -
  let ?items = "r_items req"
  let ?F = "findMany_active (products db) (map i_productId ?items)"
  from createOrder_Created [OF run] obtain sub fee where
        loop: "order_items_loop ?F ?items [] 0 = Some (o_items ord, [], sub)"
    and sub: "o_subtotal ord = sub" and fee: "o_shippingFee ord = fee"
    and tax: "o_tax ord = 0" and total: "o_total ord = sub + fee + 0"
    and tx: "create_transaction db ord ?items = Some db'"
    by blast
  from order_items_loop_result [OF loop]
  have items: "list_all2 (\<lambda>oi item. \<exists>p. find (\<lambda>p. p_id p = i_productId item) ?F = Some p
                              \<and> oi = make_orderItem p item) (o_items ord) ?items"
    and sum: "sub = 0 + sum_list (map oi_subtotal (o_items ord))"
    by blast+
  have step: "oi_productId oi = i_productId item \<and> oi_quantity oi = i_quantity item
            \<and> oi_subtotal oi = oi_price oi * real_of_int (oi_quantity oi)
            \<and> (\<exists>p \<in> set (products db). p_id p = i_productId item \<and> p_isActive p
                  \<and> oi_price oi = p_price p)"
    if "\<exists>p. find (\<lambda>p. p_id p = i_productId item) ?F = Some p \<and> oi = make_orderItem p item"
    for oi item
  proof -
    from that obtain p where f: "find (\<lambda>p. p_id p = i_productId item) ?F = Some p"
      and oi: "oi = make_orderItem p item" by blast
    from f have "p \<in> set ?F" and pid: "p_id p = i_productId item"
      by (auto simp: find_Some_iff)
    then have "p \<in> set (products db)" and "p_isActive p"
      by (simp_all add: findMany_active_def)
    with pid oi show ?thesis by (auto simp: make_orderItem_def)
  qed
  have l2: "list_all2 (\<lambda>oi item.
            oi_productId oi = i_productId item \<and> oi_quantity oi = i_quantity item
            \<and> oi_subtotal oi = oi_price oi * real_of_int (oi_quantity oi)
            \<and> (\<exists>p \<in> set (products db). p_id p = i_productId item \<and> p_isActive p
                  \<and> oi_price oi = p_price p))
           (o_items ord) ?items"
    by (rule list_all2_mono [OF items]) (rule step)
  from create_transaction_result [OF tx] have stored: "ord \<in> set (orders db')" by auto
  from total sub fee tax have t: "o_total ord = o_subtotal ord + o_shippingFee ord + o_tax ord"
    by simp
  from sum sub have s: "sum_list (map oi_subtotal (o_items ord)) = o_subtotal ord" by simp
  from t tax l2 s stored show ?thesis by (intro conjI)
qed

theorem createOrder_totals_witness:
  "createOrder shop_db 1764000000123 ''o1'' broken_mailer ''u1'' (shop_request [shop_item ''P'' 3])
      = (Created (shop_order PENDING), shop_db_ordered PENDING 2, [''Email sending error:''])
   \<and> o_total (shop_order PENDING) = 30
   \<and> o_subtotal (shop_order PENDING) = 30
   \<and> o_shippingFee (shop_order PENDING) = 0
   \<and> o_tax (shop_order PENDING) = 0
   \<and> map oi_subtotal (o_items (shop_order PENDING)) = [30]"
proof -
  have log: "catch_log ''Failed to send order confirmation email:''
               (sendOrderConfirmationEmail broken_mailer) = [''Email sending error:'']"
    by (simp add: catch_log_def sendOrderConfirmationEmail_def sendEmail_def broken_mailer_def)
  have run: "createOrder shop_db 1764000000123 ''o1'' broken_mailer ''u1''
               (shop_request [shop_item ''P'' 3])
      = (Created (shop_order PENDING), shop_db_ordered PENDING 2, [''Email sending error:''])"
    by (simp only: createOrder_shop log)
  have vals: "o_subtotal (shop_order PENDING) = 30" "o_shippingFee (shop_order PENDING) = 0"
     "map oi_subtotal (o_items (shop_order PENDING)) = [30]"
    by (simp_all add: shop_order_def)
  from createOrder_totals [OF run]
  have t: "o_total (shop_order PENDING)
           = o_subtotal (shop_order PENDING) + o_shippingFee (shop_order PENDING)
             + o_tax (shop_order PENDING)"
    and x: "o_tax (shop_order PENDING) = 0"
    by blast+
  from t x vals have tot: "o_total (shop_order PENDING) = 30" by simp
  from run tot vals(1,2) x vals(3) show ?thesis by (intro conjI)
qed

subsection \<open>Notifications\<close>

lemma confirmation_log:
  "catch_log msg (sendOrderConfirmationEmail m)
   = (if render_throws m then [msg]
      else if transport_fails m then [''Email sending error:''] else [''Email sent:''])"
  by (simp add: catch_log_def sendOrderConfirmationEmail_def sendEmail_def)

lemma status_log:
  "catch_log msg (sendOrderStatusEmail m)
   = (if render_throws m then [msg]
      else if transport_fails m then [''Email sending error:''] else [''Email sent:''])"
  by (simp add: catch_log_def sendOrderStatusEmail_def sendEmail_def)

text \<open>
  Claim C9. Whatever the mailer does (the transport fails, building the email throws,
  or the email is sent), each of the three handlers returns the response and the database
  it returns with a working mailer; only the lines written to the console differ. So a
  failing notification never turns a committed order mutation into a reported failure.
\<close>

theorem notification_failure_is_only_logged:
  "createOrder db now newId mail userId req
     = (case createOrder db now newId quiet_mailer userId req of
          (Created ord, db', out) \<Rightarrow>
            (Created ord, db',
             catch_log ''Failed to send order confirmation email:'' (sendOrderConfirmationEmail mail))
        | r \<Rightarrow> r)
   \<and> cancelOrder db mail userId oid
     = (case cancelOrder db quiet_mailer userId oid of
          (Updated ord, db', out) \<Rightarrow>
            (Updated ord, db',
             catch_log ''Failed to send order cancellation email:'' (sendOrderStatusEmail mail))
        | r \<Rightarrow> r)
   \<and> updateOrderStatus db mail oid status
     = (case updateOrderStatus db quiet_mailer oid status of
          (Updated ord, db', out) \<Rightarrow>
            (Updated ord, db',
             catch_log ''Failed to send order status email:'' (sendOrderStatusEmail mail))
        | r \<Rightarrow> r)"
proof (intro conjI)
  show "createOrder db now newId mail userId req
     = (case createOrder db now newId quiet_mailer userId req of
          (Created ord, db', out) \<Rightarrow>
            (Created ord, db',
             catch_log ''Failed to send order confirmation email:'' (sendOrderConfirmationEmail mail))
        | r \<Rightarrow> r)"
    by (simp add: createOrder_def Let_def server_error_def split: option.splits prod.splits)
  show "cancelOrder db mail userId oid
     = (case cancelOrder db quiet_mailer userId oid of
          (Updated ord, db', out) \<Rightarrow>
            (Updated ord, db',
             catch_log ''Failed to send order cancellation email:'' (sendOrderStatusEmail mail))
        | r \<Rightarrow> r)"
    by (simp add: cancelOrder_def server_error_def split: option.splits prod.splits)
  show "updateOrderStatus db mail oid status
     = (case updateOrderStatus db quiet_mailer oid status of
          (Updated ord, db', out) \<Rightarrow>
            (Updated ord, db',
             catch_log ''Failed to send order status email:'' (sendOrderStatusEmail mail))
        | r \<Rightarrow> r)"
    by (simp add: updateOrderStatus_def server_error_def split: option.splits prod.splits)
qed

lemma updateOrderStatus_shop:
  "status \<in> set (allowedTransitions st) \<Longrightarrow> parse_status status = Some s \<Longrightarrow>
   updateOrderStatus (shop_db_ordered st q) m ''o1'' status
   = (Updated (shop_order s), shop_db_ordered s q,
      catch_log ''Failed to send order status email:'' (sendOrderStatusEmail m))"
  by (simp add: updateOrderStatus_def findUnique_order_def shop_db_ordered_def shop_order_def
      order_update_status_def)

lemma parse_processing: "parse_status ''PROCESSING'' = Some PROCESSING"
  by (simp add: parse_status_def all_statuses_def)

lemma parse_cancelled: "parse_status ''CANCELLED'' = Some CANCELLED"
  by (simp add: parse_status_def all_statuses_def)

theorem notification_failure_is_only_logged_witness:
  "createOrder shop_db 1764000000123 ''o1'' throwing_mailer ''u1'' (shop_request [shop_item ''P'' 3])
     = (Created (shop_order PENDING), shop_db_ordered PENDING 2,
        [''Failed to send order confirmation email:''])
   \<and> cancelOrder (shop_db_ordered PAID 2) broken_mailer ''u1'' ''o1''
     = (Updated (shop_order CANCELLED), shop_db_ordered CANCELLED 5, [''Email sending error:''])
   \<and> updateOrderStatus (shop_db_ordered PAID 2) throwing_mailer ''o1'' ''PROCESSING''
     = (Updated (shop_order PROCESSING), shop_db_ordered PROCESSING 2,
        [''Failed to send order status email:''])"
proof -
  note n1 = notification_failure_is_only_logged
    [where db = shop_db and now = 1764000000123 and newId = "''o1''" and mail = throwing_mailer
       and userId = "''u1''" and req = "shop_request [shop_item ''P'' 3]"]
  note n2 = notification_failure_is_only_logged
    [where db = "shop_db_ordered PAID 2" and mail = broken_mailer and userId = "''u1''"
       and oid = "''o1''"]
  note n3 = notification_failure_is_only_logged
    [where db = "shop_db_ordered PAID 2" and mail = throwing_mailer and oid = "''o1''"
       and status = "''PROCESSING''"]
  have t: "render_throws throwing_mailer = True" and b: "render_throws broken_mailer = False"
    "transport_fails broken_mailer = True"
    by (simp_all add: throwing_mailer_def broken_mailer_def)
  have q1: "createOrder shop_db 1764000000123 ''o1'' quiet_mailer ''u1''
             (shop_request [shop_item ''P'' 3])
     = (Created (shop_order PENDING), shop_db_ordered PENDING 2, [''Email sent:''])"
    by (simp only: createOrder_shop quiet_confirmation_log)
  have q2: "cancelOrder (shop_db_ordered PAID 2) quiet_mailer ''u1'' ''o1''
     = (Updated (shop_order CANCELLED), shop_db_ordered CANCELLED 5,
        catch_log ''Failed to send order cancellation email:'' (sendOrderStatusEmail quiet_mailer))"
    by (rule cancelOrder_shop)
  have q3: "updateOrderStatus (shop_db_ordered PAID 2) quiet_mailer ''o1'' ''PROCESSING''
     = (Updated (shop_order PROCESSING), shop_db_ordered PROCESSING 2,
        catch_log ''Failed to send order status email:'' (sendOrderStatusEmail quiet_mailer))"
    by (rule updateOrderStatus_shop [OF _ parse_processing]) simp
  have a: "createOrder shop_db 1764000000123 ''o1'' throwing_mailer ''u1''
             (shop_request [shop_item ''P'' 3])
     = (Created (shop_order PENDING), shop_db_ordered PENDING 2,
        [''Failed to send order confirmation email:''])"
    by (simp only: n1 q1 prod.case response.case confirmation_log t if_True)
  have c: "cancelOrder (shop_db_ordered PAID 2) broken_mailer ''u1'' ''o1''
     = (Updated (shop_order CANCELLED), shop_db_ordered CANCELLED 5, [''Email sending error:''])"
    by (simp only: n2 q2 prod.case response.case status_log b if_True if_False)
  have u: "updateOrderStatus (shop_db_ordered PAID 2) throwing_mailer ''o1'' ''PROCESSING''
     = (Updated (shop_order PROCESSING), shop_db_ordered PROCESSING 2,
        [''Failed to send order status email:''])"
    by (simp only: n3 q3 prod.case response.case status_log t if_True)
  from a c u show ?thesis by (intro conjI)
qed

subsection \<open>Cancellation through the status update\<close>

lemma updateOrderStatus_keeps_products:
  "products (fst (snd (updateOrderStatus db mail oid status))) = products db"
  by (simp add: updateOrderStatus_def server_error_def split: option.splits prod.splits)

text \<open>
  Claim C1, on the code. The order of 3 units is PENDING (or PROCESSING) and the
  product's stock is 2. \<open>updateOrderStatus\<close> to CANCELLED succeeds and the stock is still
  2; \<open>cancelOrder\<close> on the database with the PENDING order puts the stock back to 5.
\<close>

theorem updateOrderStatus_cancelled_keeps_stock:
  "updateOrderStatus (shop_db_ordered PENDING 2) quiet_mailer ''o1'' ''CANCELLED''
     = (Updated (shop_order CANCELLED), shop_db_ordered CANCELLED 2, [''Email sent:''])
   \<and> updateOrderStatus (shop_db_ordered PROCESSING 2) quiet_mailer ''o1'' ''CANCELLED''
     = (Updated (shop_order CANCELLED), shop_db_ordered CANCELLED 2, [''Email sent:''])
   \<and> stock (shop_db_ordered CANCELLED 2) ''P'' = Some 2
   \<and> cancelOrder (shop_db_ordered PENDING 2) quiet_mailer ''u1'' ''o1''
     = (Updated (shop_order CANCELLED), shop_db_ordered CANCELLED 5, [''Email sent:''])
   \<and> stock (shop_db_ordered CANCELLED 5) ''P'' = Some 5"
proof -
  have q: "\<not> render_throws quiet_mailer" "\<not> transport_fails quiet_mailer"
    by (simp_all add: quiet_mailer_def)
  have a: "updateOrderStatus (shop_db_ordered PENDING 2) quiet_mailer ''o1'' ''CANCELLED''
     = (Updated (shop_order CANCELLED), shop_db_ordered CANCELLED 2, [''Email sent:''])"
    using q by (simp add: updateOrderStatus_shop [OF _ parse_cancelled] status_log)
  have a': "updateOrderStatus (shop_db_ordered PROCESSING 2) quiet_mailer ''o1'' ''CANCELLED''
     = (Updated (shop_order CANCELLED), shop_db_ordered CANCELLED 2, [''Email sent:''])"
    using q by (simp add: updateOrderStatus_shop [OF _ parse_cancelled] status_log)
  have b: "stock (shop_db_ordered st n) ''P'' = Some n" for st n
    by (simp add: stock_def shop_db_ordered_def shop_product_def)
  have c: "cancelOrder (shop_db_ordered PENDING 2) quiet_mailer ''u1'' ''o1''
     = (Updated (shop_order CANCELLED), shop_db_ordered CANCELLED 5, [''Email sent:''])"
    using q
    by (simp add: cancelOrder_def findUnique_order_def shop_db_ordered_def shop_order_def
      cancel_transaction_def order_update_status_def restore_inventory_def product_update_def
      shop_product_def status_log in_int4_def)
  from a a' b [of CANCELLED 2] c b [of CANCELLED 5] show ?thesis by (intro conjI)
qed

subsection \<open>Field checks of createOrder\<close>

lemma createOrder_rejects_empty:
  "createOrder db now newId mail userId (req\<lparr>r_items := []\<rparr>) = (Failed EmptyOrder, db, [])"
  by (simp add: createOrder_def)

lemma createOrder_rejects_missing_address:
  "r_items req \<noteq> [] \<Longrightarrow>
   createOrder db now newId mail userId (req\<lparr>r_deliveryMethod := DELIVERY, r_shippingInfo := None\<rparr>)
   = (Failed ShippingRequired, db, [])"
  by (simp add: createOrder_def)

text \<open>
  Claim C7, on the code. A request for \<open>-2\<close> units of the product (stock 5, price 10.00)
  is not rejected: the order is created with subtotal and total \<open>-20\<close>, and the stock
  becomes 7.
\<close>

theorem createOrder_accepts_negative_quantity:
  "createOrder shop_db 1764000000123 ''o1'' quiet_mailer ''u1'' (shop_request [shop_item ''P'' (- 2)])
   = (Created ((shop_order PENDING)
        \<lparr>o_subtotal := - 20, o_total := - 20,
         o_items := [\<lparr>oi_productId = ''P'', oi_productName = ''Whey'', oi_productBrand = None,
                      oi_quantity = - 2, oi_price = 10, oi_subtotal = - 20\<rparr>]\<rparr>),
      \<lparr>products = [shop_product\<lparr>p_quantity := 7\<rparr>],
       orders = [(shop_order PENDING)
        \<lparr>o_subtotal := - 20, o_total := - 20,
         o_items := [\<lparr>oi_productId = ''P'', oi_productName = ''Whey'', oi_productBrand = None,
                      oi_quantity = - 2, oi_price = 10, oi_subtotal = - 20\<rparr>]\<rparr>]\<rparr>,
      [''Email sent:''])"
  by (simp add: createOrder_def shop_request_def shop_item_def findMany_active_def
      shop_db_def shop_product_def Let_def make_orderItem_def calculateShippingFee_def
      create_transaction_def order_create_def deduct_inventory_def product_update_def
      order_columns_fit_def fits_decimal_10_2_def in_int4_def
      shop_order_number shop_order_def confirmation_log quiet_mailer_def)

end
